theory Spec2Isabelle
  imports Main "HOL-Library.Word" "HOL-Library.Multiset" "HOL-Library.Sublist"
begin

section \<open>The registry contract (contracts/WeddingRegistry.sol)\<close>

text \<open>
  The contract keeps an owner address and a dynamic array of items. Solidity's
  \<^verbatim>\<open>uint256\<close> values that occur here (item ids, array lengths, loop counters, block
  timestamps) are modelled as natural numbers: the only arithmetic on them is the
  increment of a counter that is bounded by the array length, so no wrap-around
  (and no checked-arithmetic panic) is reachable. Events are not part of the stored
  state and are left out. A call that reverts leaves the storage as it was; the
  model returns the revert as \<open>Inl\<close>.
\<close>

type_synonym address = "160 word"

record RegistryItem =
  name :: string
  description :: string
  url :: string
  imageUrl :: string
  isPurchased :: bool
  isDeleted :: bool
  encryptedPurchaserName :: string
  purchasedAt :: nat

record registry =
  owner :: address
  items :: "RegistryItem list"

text \<open>
  What a call sees of its transaction: \<^verbatim>\<open>msg.sender\<close> and \<^verbatim>\<open>block.timestamp\<close>. The
  timestamp is the Unix time of the block; on a chain every block that holds a
  transaction has a positive one.
\<close>

record env =
  msg_sender :: address
  block_timestamp :: nat

text \<open>One constructor per \<^verbatim>\<open>require\<close> of the contract, and the array-bounds panic.\<close>

datatype error =
    NotOwner
  | InvalidId
  | UpdateDeleted
  | AlreadyDeleted
  | ItemRemoved
  | AlreadyPurchased
  | EmptyName
  | ResetDeleted
  | NullTarget
  | PanicOutOfBounds

fun revert_reason :: "error \<Rightarrow> string" where
  "revert_reason NotOwner = ''Only owner can call this function''"
| "revert_reason InvalidId = ''Invalid item ID''"
| "revert_reason UpdateDeleted = ''Cannot update deleted item''"
| "revert_reason AlreadyDeleted = ''Item already deleted''"
| "revert_reason ItemRemoved = ''Item has been removed''"
| "revert_reason AlreadyPurchased = ''Item already purchased''"
| "revert_reason EmptyName = ''Purchaser name required''"
| "revert_reason ResetDeleted = ''Cannot reset deleted item''"
| "revert_reason NullTarget = ''New owner cannot be zero address''"
| "revert_reason PanicOutOfBounds = ''panic: array out-of-bounds access (0x32)''"

text \<open>The errors the specification calls "the deleted-item error".\<close>

fun deleted_error :: "error \<Rightarrow> bool" where
  "deleted_error UpdateDeleted = True"
| "deleted_error AlreadyDeleted = True"
| "deleted_error ItemRemoved = True"
| "deleted_error ResetDeleted = True"
| "deleted_error _ = False"

definition constructor :: "env \<Rightarrow> registry" where
  "constructor e = \<lparr>owner = msg_sender e, items = []\<rparr>"

definition onlyOwner :: "env \<Rightarrow> registry \<Rightarrow> bool" where
  "onlyOwner e st = (msg_sender e = owner st)"

definition validItemId :: "nat \<Rightarrow> registry \<Rightarrow> bool" where
  "validItemId itemId st = (itemId < length (items st))"

definition addItem ::
  "env \<Rightarrow> string \<Rightarrow> string \<Rightarrow> string \<Rightarrow> string \<Rightarrow> registry \<Rightarrow> error + registry" where
  "addItem e n d u i st =
     (if \<not> onlyOwner e st then Inl NotOwner
      else let newItem = \<lparr>name = n, description = d, url = u, imageUrl = i,
                            isPurchased = False, isDeleted = False,
                            encryptedPurchaserName = [], purchasedAt = 0\<rparr>
           in Inr (st\<lparr>items := items st @ [newItem]\<rparr>))"

definition updateItem ::
  "env \<Rightarrow> nat \<Rightarrow> string \<Rightarrow> string \<Rightarrow> string \<Rightarrow> string \<Rightarrow> registry \<Rightarrow> error + registry" where
  "updateItem e itemId n d u i st =
     (if \<not> onlyOwner e st then Inl NotOwner
      else if \<not> validItemId itemId st then Inl InvalidId
      else let item = items st ! itemId in
        if isDeleted item then Inl UpdateDeleted
        else Inr (st\<lparr>items := (items st)[itemId :=
                    item\<lparr>name := n, description := d, url := u, imageUrl := i\<rparr>]\<rparr>))"

definition removeItem :: "env \<Rightarrow> nat \<Rightarrow> registry \<Rightarrow> error + registry" where
  "removeItem e itemId st =
     (if \<not> onlyOwner e st then Inl NotOwner
      else if \<not> validItemId itemId st then Inl InvalidId
      else if isDeleted (items st ! itemId) then Inl AlreadyDeleted
      else Inr (st\<lparr>items := (items st)[itemId := (items st ! itemId)\<lparr>isDeleted := True\<rparr>]\<rparr>))"

definition markAsPurchased :: "env \<Rightarrow> nat \<Rightarrow> string \<Rightarrow> registry \<Rightarrow> error + registry" where
  "markAsPurchased e itemId encName st =
     (if \<not> validItemId itemId st then Inl InvalidId
      else let item = items st ! itemId in
        if isDeleted item then Inl ItemRemoved
        else if isPurchased item then Inl AlreadyPurchased
        else if \<not> (length encName > 0) then Inl EmptyName
        else Inr (st\<lparr>items := (items st)[itemId :=
                    item\<lparr>isPurchased := True, encryptedPurchaserName := encName,
                         purchasedAt := block_timestamp e\<rparr>]\<rparr>))"

definition resetItem :: "env \<Rightarrow> nat \<Rightarrow> registry \<Rightarrow> error + registry" where
  "resetItem e itemId st =
     (if \<not> onlyOwner e st then Inl NotOwner
      else if \<not> validItemId itemId st then Inl InvalidId
      else let item = items st ! itemId in
        if isDeleted item then Inl ResetDeleted
        else Inr (st\<lparr>items := (items st)[itemId :=
                    item\<lparr>isPurchased := False, encryptedPurchaserName := [],
                         purchasedAt := 0\<rparr>]\<rparr>))"

definition transferOwnership :: "env \<Rightarrow> address \<Rightarrow> registry \<Rightarrow> error + registry" where
  "transferOwnership e newOwner st =
     (if \<not> onlyOwner e st then Inl NotOwner
      else if \<not> (newOwner \<noteq> 0) then Inl NullTarget
      else Inr (st\<lparr>owner := newOwner\<rparr>))"

definition getItem :: "nat \<Rightarrow> registry \<Rightarrow> error + RegistryItem" where
  "getItem itemId st =
     (if \<not> validItemId itemId st then Inl InvalidId else Inr (items st ! itemId))"

subsection \<open>The view functions and their loops\<close>

text \<open>
  \<^verbatim>\<open>getItemCount\<close>, \<^verbatim>\<open>getAllItems\<close>, \<^verbatim>\<open>getAvailableItems\<close> and \<^verbatim>\<open>getPurchasedItems\<close> are
  written in the source with the same two loops and three different tests. The
  counting loop runs \<open>i\<close> from its start to the array length; the filling loop writes
  into a memory array of fixed size at \<open>currentIndex\<close>, and a write outside that
  array is the panic it would be in Solidity.
\<close>

function count_loop :: "(RegistryItem \<Rightarrow> bool) \<Rightarrow> RegistryItem list \<Rightarrow> nat \<Rightarrow> nat \<Rightarrow> nat" where
  "count_loop P its i cnt =
     (if i < length its
      then count_loop P its (Suc i) (if P (its ! i) then Suc cnt else cnt)
      else cnt)"
  by pat_completeness auto
termination
  by (relation "measure (\<lambda>(P, its, i, cnt). length its - i)") auto

function fill_loop ::
  "(RegistryItem \<Rightarrow> bool) \<Rightarrow> RegistryItem list \<Rightarrow> nat \<Rightarrow> nat \<Rightarrow> RegistryItem list
     \<Rightarrow> error + RegistryItem list" where
  "fill_loop P its i currentIndex out =
     (if i < length its
      then (if P (its ! i)
            then (if currentIndex < length out
                  then fill_loop P its (Suc i) (Suc currentIndex) (out[currentIndex := its ! i])
                  else Inl PanicOutOfBounds)
            else fill_loop P its (Suc i) currentIndex out)
      else Inr out)"
  by pat_completeness auto
termination
  by (relation "measure (\<lambda>(P, its, i, currentIndex, out). length its - i)") auto

text \<open>The value \<^verbatim>\<open>new RegistryItem[](n)\<close> starts from: \<open>n\<close> zero-initialised structs.\<close>

definition zero_item :: RegistryItem where
  "zero_item = \<lparr>name = [], description = [], url = [], imageUrl = [],
                isPurchased = False, isDeleted = False,
                encryptedPurchaserName = [], purchasedAt = 0\<rparr>"

definition filtered_view :: "(RegistryItem \<Rightarrow> bool) \<Rightarrow> registry \<Rightarrow> error + RegistryItem list" where
  "filtered_view P st =
     (let n = count_loop P (items st) 0 0
      in fill_loop P (items st) 0 0 (replicate n zero_item))"

definition is_active :: "RegistryItem \<Rightarrow> bool" where
  "is_active it = (\<not> isDeleted it)"

definition is_available :: "RegistryItem \<Rightarrow> bool" where
  "is_available it = (\<not> isDeleted it \<and> \<not> isPurchased it)"

definition is_purchased :: "RegistryItem \<Rightarrow> bool" where
  "is_purchased it = (\<not> isDeleted it \<and> isPurchased it)"

definition getItemCount :: "registry \<Rightarrow> nat" where
  "getItemCount st = count_loop is_active (items st) 0 0"

definition getAllItems :: "registry \<Rightarrow> error + RegistryItem list" where
  "getAllItems st = filtered_view is_active st"

definition getAvailableItems :: "registry \<Rightarrow> error + RegistryItem list" where
  "getAvailableItems st = filtered_view is_available st"

definition getPurchasedItems :: "registry \<Rightarrow> error + RegistryItem list" where
  "getPurchasedItems st = filtered_view is_purchased st"

subsection \<open>Transactions and reachable states\<close>

datatype call =
    AddItem string string string string
  | UpdateItem nat string string string string
  | RemoveItem nat
  | MarkAsPurchased nat string
  | ResetItem nat
  | TransferOwnership address

fun exec :: "env \<Rightarrow> call \<Rightarrow> registry \<Rightarrow> error + registry" where
  "exec e (AddItem n d u i) st = addItem e n d u i st"
| "exec e (UpdateItem k n d u i) st = updateItem e k n d u i st"
| "exec e (RemoveItem k) st = removeItem e k st"
| "exec e (MarkAsPurchased k c) st = markAsPurchased e k c st"
| "exec e (ResetItem k) st = resetItem e k st"
| "exec e (TransferOwnership a) st = transferOwnership e a st"

text \<open>A transaction either commits the new storage or reverts to the old one.\<close>

definition apply_tx :: "registry \<Rightarrow> env \<times> call \<Rightarrow> registry" where
  "apply_tx st tx = (case exec (fst tx) (snd tx) st of Inl _ \<Rightarrow> st | Inr st' \<Rightarrow> st')"

definition run :: "registry \<Rightarrow> (env \<times> call) list \<Rightarrow> registry" where
  "run st txs = foldl apply_tx st txs"

inductive reachable :: "registry \<Rightarrow> bool" where
  reach_init: "reachable (constructor e)"
| reach_step: "reachable st \<Longrightarrow> reachable (apply_tx st tx)"

text \<open>The calls that a sequence of additions and removals consists of.\<close>

fun add_or_remove :: "call \<Rightarrow> bool" where
  "add_or_remove (AddItem n d u i) = True"
| "add_or_remove (RemoveItem k) = True"
| "add_or_remove _ = False"

text \<open>Two records describe the same item when they differ in the deleted flag at most.\<close>

definition same_item :: "RegistryItem \<Rightarrow> RegistryItem \<Rightarrow> bool" where
  "same_item a b =
     (name a = name b \<and> description a = description b \<and> url a = url b
      \<and> imageUrl a = imageUrl b \<and> isPurchased a = isPurchased b
      \<and> encryptedPurchaserName a = encryptedPurchaserName b
      \<and> purchasedAt a = purchasedAt b)"

text \<open>
  Invariant I2 of the specification on one item and on the registry, and the state of
  the purchase fields after creation or reset.
\<close>

definition purchase_coupled :: "RegistryItem \<Rightarrow> bool" where
  "purchase_coupled it =
     (isPurchased it \<longrightarrow> encryptedPurchaserName it \<noteq> [] \<and> 0 < purchasedAt it)"

definition I2 :: "registry \<Rightarrow> bool" where
  "I2 st = list_all purchase_coupled (items st)"

definition cleared :: "RegistryItem \<Rightarrow> bool" where
  "cleared it = (\<not> isPurchased it \<and> encryptedPurchaserName it = [] \<and> purchasedAt it = 0)"

text \<open>
  The states the contract reaches on a chain: from its deployment, through
  transactions in blocks with a positive timestamp.
\<close>

inductive reachable_pos :: "registry \<Rightarrow> bool" where
  pos_init: "reachable_pos (constructor e)"
| pos_step: "reachable_pos st \<Longrightarrow> 0 < block_timestamp (fst tx)
     \<Longrightarrow> reachable_pos (apply_tx st tx)"

text \<open>A transaction whose purchase, if it is one, happens at a positive block time.\<close>

fun stamped :: "env \<times> call \<Rightarrow> bool" where
  "stamped (e, MarkAsPurchased k c) = (0 < block_timestamp e)"
| "stamped (e, _) = True"

section \<open>The relayer (relayer-lambda/index.js)\<close>

subsection \<open>JavaScript values, errors and strings\<close>

text \<open>A property of a JavaScript object: absent (\<^verbatim>\<open>undefined\<close>), \<^verbatim>\<open>null\<close>, or a value.\<close>

datatype 'a js = Undefined | Null | Val 'a

text \<open>
  The fields of a thrown error that the relayer looks at. Errors come from ethers,
  from \<^verbatim>\<open>JSON.parse\<close> and from the runtime; their content is outside this
  repository, so every function below takes them as they come.
\<close>

record js_error =
  err_code :: "string js"
  err_message :: "string js"
  err_reason :: "string js"
  err_data :: "string js"

text \<open>\<^verbatim>\<open>new Error(msg)\<close> and the runtime's \<^verbatim>\<open>TypeError\<close>: a message and nothing else.\<close>

definition Error :: "string \<Rightarrow> js_error" where
  "Error m = \<lparr>err_code = Undefined, err_message = Val m, err_reason = Undefined,
              err_data = Undefined\<rparr>"

text \<open>\<^verbatim>\<open>String.prototype.includes\<close>, \<^verbatim>\<open>endsWith\<close> and \<^verbatim>\<open>trim\<close> (on ASCII white space).\<close>

fun str_includes :: "string \<Rightarrow> string \<Rightarrow> bool" where
  "str_includes [] sub = (sub = [])"
| "str_includes (c # cs) sub = (prefix sub (c # cs) \<or> str_includes cs sub)"

definition endsWith :: "string \<Rightarrow> string \<Rightarrow> bool" where
  "endsWith s suf = suffix suf s"

definition is_ws :: "char \<Rightarrow> bool" where
  "is_ws c = (c = CHR 0x20 \<or> c = CHR 0x09 \<or> c = CHR 0x0A \<or> c = CHR 0x0B
              \<or> c = CHR 0x0C \<or> c = CHR 0x0D)"

definition trim :: "string \<Rightarrow> string" where
  "trim s = rev (dropWhile is_ws (rev (dropWhile is_ws s)))"

text \<open>\<^verbatim>\<open>error.message?.includes(sub)\<close>: falsy when there is no message.\<close>

definition msg_includes :: "js_error \<Rightarrow> string \<Rightarrow> bool" where
  "msg_includes e sub = (case err_message e of Val m \<Rightarrow> str_includes m sub | _ \<Rightarrow> False)"

text \<open>The decimal numeral of a template literal \<^verbatim>\<open>${index}\<close>.\<close>

function string_of_nat :: "nat \<Rightarrow> string" where
  "string_of_nat n =
     (if n < 10 then [char_of (48 + n)]
      else string_of_nat (n div 10) @ [char_of (48 + n mod 10)])"
  by pat_completeness auto
termination
  by (relation "measure id") auto

text \<open>
  A value of the parsed request body. Only whether a number is zero matters to the
  relayer, so numbers are integers here.
\<close>

datatype jsval = JUndefined | JNull | JBool bool | JNum int | JStr string | JObject

fun truthy :: "jsval \<Rightarrow> bool" where
  "truthy JUndefined = False"
| "truthy JNull = False"
| "truthy (JBool b) = b"
| "truthy (JNum n) = (n \<noteq> 0)"
| "truthy (JStr s) = (s \<noteq> [])"
| "truthy JObject = True"

text \<open>\<^verbatim>\<open>===\<close> between a value of the body and an environment variable.\<close>

fun strict_eq :: "jsval \<Rightarrow> string js \<Rightarrow> bool" where
  "strict_eq (JStr s) (Val t) = (s = t)"
| "strict_eq JUndefined Undefined = True"
| "strict_eq JNull Null = True"
| "strict_eq _ _ = False"

subsection \<open>retryWithBackoff\<close>

text \<open>
  \<open>fn k\<close> is what the \<open>k\<close>-th invocation of the wrapped call does: it throws
  (\<open>Inl\<close>) or returns. The loop invokes it once per attempt. The trace lists the
  invocations and the sleeps in the order they happen.
\<close>

datatype retry_event = Call nat | Backoff nat

datatype 'a outcome = Returned 'a | Thrown js_error | ReturnedUndefined

definition isRateLimit :: "js_error \<Rightarrow> bool" where
  "isRateLimit e =
     (err_code e = Val ''CALL_EXCEPTION'' \<or> msg_includes e ''rate limit''
      \<or> msg_includes e ''429'')"

function retry_loop ::
  "(nat \<Rightarrow> js_error + 'a) \<Rightarrow> nat \<Rightarrow> nat \<Rightarrow> 'a outcome \<times> retry_event list" where
  "retry_loop fn maxRetries attempt =
     (if attempt < maxRetries
      then (case fn attempt of
              Inr v \<Rightarrow> (Returned v, [Call attempt])
            | Inl e \<Rightarrow>
                (let isLastAttempt = (attempt = maxRetries - 1) in
                 if isRateLimit e \<and> \<not> isLastAttempt
                 then (let delayMs = 2 ^ attempt * 1000;
                           rest = retry_loop fn maxRetries (Suc attempt)
                       in (fst rest, Call attempt # Backoff delayMs # snd rest))
                 else (Thrown e, [Call attempt])))
      else (ReturnedUndefined, []))"
  by pat_completeness auto
termination
  by (relation "measure (\<lambda>(fn, maxRetries, attempt). maxRetries - attempt)") auto

definition retryWithBackoff ::
  "(nat \<Rightarrow> js_error + 'a) \<Rightarrow> nat \<Rightarrow> 'a outcome \<times> retry_event list" where
  "retryWithBackoff fn maxRetries = retry_loop fn maxRetries 0"

text \<open>Every caller in the file leaves \<^verbatim>\<open>maxRetries\<close> at its default.\<close>

definition default_maxRetries :: nat where
  "default_maxRetries = 3"

subsection \<open>Configuration, the outside world, requests and responses\<close>

text \<open>The environment variables the two handlers read (unset is \<open>Undefined\<close>).\<close>

record config =
  REGISTRY_PASSWORD :: "string js"
  OWNER_PUBLIC_KEY :: "string js"
  CONTRACT_ADDRESS :: "string js"

text \<open>
  What the relayer's collaborators answer. \<open>w_init\<close>: \<^verbatim>\<open>initializeContract()\<close>
  and the construction of the read-only contract throw or not. \<open>w_items i k\<close>: the
  \<open>k\<close>-th invocation of \<^verbatim>\<open>readOnlyContract.items(i)\<close> during a listing.
  \<open>w_read v k\<close>, \<open>w_submit v c k\<close>: the \<open>k\<close>-th invocation of
  \<^verbatim>\<open>contract.items(v)\<close> and of \<^verbatim>\<open>contract.markAsPurchased(v, c)\<close> during a purchase
  (the transaction hash on success). \<open>w_encrypt\<close>: the body of
  \<^verbatim>\<open>encryptPurchaserName\<close>, \<open>None\<close> when anything in it throws. \<open>w_wait\<close>:
  \<^verbatim>\<open>tx.wait()\<close>, the receipt's hash on success.
\<close>

record world =
  w_init :: "js_error option"
  w_items :: "nat \<Rightarrow> nat \<Rightarrow> js_error + RegistryItem"
  w_read :: "jsval \<Rightarrow> nat \<Rightarrow> js_error + RegistryItem"
  w_encrypt :: "string js \<Rightarrow> string \<Rightarrow> string option"
  w_submit :: "jsval \<Rightarrow> string \<Rightarrow> nat \<Rightarrow> js_error + string"
  w_wait :: "js_error + string"
  w_relayerAddress :: "string option"

text \<open>Every call that leaves the process, in order.\<close>

datatype io =
    InitContract
  | ItemsRead nat nat
  | SleepMs nat
  | PurchaseRead jsval nat
  | Encrypt "string js" string
  | Submit jsval string nat
  | Wait
  | Notify jsval string jsval string

text \<open>
  \<^verbatim>\<open>JSON.parse(event.body || '{}')\<close> followed by the destructuring either throws (a
  syntax error, or the value \<^verbatim>\<open>null\<close>) or yields the three fields \<^verbatim>\<open>password\<close>, \<^verbatim>\<open>itemId\<close> and
  \<^verbatim>\<open>purchaserName\<close> in this order, each \<open>JUndefined\<close> when the body has no such key.
\<close>

datatype request_body =
    Unparseable js_error
  | Body jsval jsval jsval

text \<open>
  The event as the handler resolves it: the method
  (\<^verbatim>\<open>requestContext.http.method\<close>, else \<^verbatim>\<open>httpMethod\<close>, else the empty string), the path
  (\<^verbatim>\<open>requestContext.http.path\<close>, else \<^verbatim>\<open>rawPath\<close>, else \<^verbatim>\<open>path\<close>, else the empty
  string) and the body.
\<close>

record event =
  ev_method :: string
  ev_path :: string
  ev_body :: request_body

text \<open>One item of the listing: the keys of the object literal, and no other.\<close>

record listing_item =
  li_id :: nat
  li_name :: string
  li_description :: string
  li_url :: string
  li_imageUrl :: string
  li_isPurchased :: bool
  li_isDeleted :: bool
  li_purchasedAt :: "nat option"

text \<open>The objects given to \<^verbatim>\<open>JSON.stringify\<close>, one constructor per shape.\<close>

datatype response_body =
    EmptyBody
  | ItemsBody "listing_item list" nat
  | ErrorBody string
  | ErrorMessageBody string "string js"
  | ErrorItemBody string jsval
  | SuccessBody bool jsval string string
  | HealthBody string string "string js"

record response =
  statusCode :: nat
  body :: response_body

subsection \<open>handleGetItems\<close>

text \<open>
  \<^verbatim>\<open>purchasedAt: item.purchasedAt ? Number(item.purchasedAt) : null\<close>: zero is falsy.
  (\<^verbatim>\<open>Number\<close> is exact on the timestamps a chain produces.)
\<close>

definition format_item :: "nat \<Rightarrow> RegistryItem \<Rightarrow> listing_item" where
  "format_item index item =
     \<lparr>li_id = index, li_name = name item, li_description = description item,
      li_url = url item, li_imageUrl = imageUrl item, li_isPurchased = isPurchased item,
      li_isDeleted = isDeleted item,
      li_purchasedAt = (if purchasedAt item \<noteq> 0 then Some (purchasedAt item) else None)\<rparr>"

definition placeholder_item :: "nat \<Rightarrow> listing_item" where
  "placeholder_item index =
     \<lparr>li_id = index, li_name = ''[Error loading item '' @ string_of_nat index @ '']'',
      li_description = ''This item could not be loaded'', li_url = [], li_imageUrl = [],
      li_isPurchased = False, li_isDeleted = True, li_purchasedAt = None\<rparr>"

definition isEndOfArray :: "js_error \<Rightarrow> bool" where
  "isEndOfArray e =
     (msg_includes e ''missing revert data''
      \<or> (err_code e = Val ''CALL_EXCEPTION'' \<and> err_data e = Null \<and> err_reason e = Null))"

text \<open>
  A retry loop that ends without returning gives \<^verbatim>\<open>undefined\<close>; reading
  \<^verbatim>\<open>item.name\<close> of it throws inside the same \<^verbatim>\<open>try\<close>.
\<close>

definition undefined_item_error :: js_error where
  "undefined_item_error = Error ''Cannot read properties of undefined (reading 'name')''"

fun tag_read :: "nat \<Rightarrow> retry_event \<Rightarrow> io" where
  "tag_read index (Call k) = ItemsRead index k"
| "tag_read index (Backoff ms) = SleepMs ms"

function items_loop ::
  "world \<Rightarrow> nat \<Rightarrow> listing_item list \<Rightarrow> io list \<Rightarrow> listing_item list \<times> io list" where
  "items_loop w index formattedItems tr =
     (if index < 1024
      then (let r = retryWithBackoff (w_items w index) default_maxRetries;
                tr' = tr @ map (tag_read index) (snd r)
            in case fst r of
                 Returned item \<Rightarrow>
                   items_loop w (Suc index) (formattedItems @ [format_item index item])
                     (tr' @ [SleepMs 50])
               | Thrown e \<Rightarrow>
                   if isEndOfArray e then (formattedItems, tr')
                   else items_loop w (Suc index) (formattedItems @ [placeholder_item index]) tr'
               | ReturnedUndefined \<Rightarrow>
                   if isEndOfArray undefined_item_error then (formattedItems, tr')
                   else items_loop w (Suc index) (formattedItems @ [placeholder_item index]) tr')
      else (formattedItems, tr))"
  by pat_completeness auto
termination
  by (relation "measure (\<lambda>(w, index, formattedItems, tr). 1024 - index)") auto

definition handleGetItems :: "world \<Rightarrow> response \<times> io list" where
  "handleGetItems w =
     (case w_init w of
        Some e \<Rightarrow>
          (\<lparr>statusCode = 500,
            body = ErrorMessageBody ''Failed to fetch items'' (err_message e)\<rparr>,
           [InitContract])
      | None \<Rightarrow>
          (let r = items_loop w 0 [] [InitContract]
           in (\<lparr>statusCode = 200, body = ItemsBody (fst r) (length (fst r))\<rparr>, snd r)))"

subsection \<open>handlePurchase\<close>

text \<open>
  The \<^verbatim>\<open>catch\<close> block of \<^verbatim>\<open>handlePurchase\<close>. \<^verbatim>\<open>error.message.includes\<close> itself
  throws when the error has no message; that error leaves the function.
\<close>

definition purchase_catch :: "js_error \<Rightarrow> js_error + response" where
  "purchase_catch e =
     (case err_message e of
        Val m \<Rightarrow>
          if str_includes m ''already purchased''
          then Inr \<lparr>statusCode = 409, body = ErrorBody ''Item already purchased''\<rparr>
          else if str_includes m ''Invalid item ID''
          then Inr \<lparr>statusCode = 404, body = ErrorBody ''Item not found''\<rparr>
          else Inr \<lparr>statusCode = 500,
                     body = ErrorMessageBody ''Failed to process purchase'' (Val m)\<rparr>
      | Undefined \<Rightarrow>
          Inl (Error ''Cannot read properties of undefined (reading 'includes')'')
      | Null \<Rightarrow> Inl (Error ''Cannot read properties of null (reading 'includes')''))"

text \<open>\<^verbatim>\<open>!expectedPassword\<close>: the variable is unset or the empty string.\<close>

definition unconfigured :: "string js \<Rightarrow> bool" where
  "unconfigured v = (case v of Val s \<Rightarrow> s = [] | _ \<Rightarrow> True)"

text \<open>
  \<^verbatim>\<open>handlePurchase\<close> in two parts. \<open>purchase_steps\<close> is its \<^verbatim>\<open>try\<close> block from
  \<^verbatim>\<open>initializeContract()\<close> on, for a request that has passed the checks of the
  password and of the input; \<open>pn\<close> is the purchaser's name, a string by then.
\<close>

definition purchase_steps ::
  "config \<Rightarrow> world \<Rightarrow> jsval \<Rightarrow> string \<Rightarrow> (js_error + response) \<times> io list" where
  "purchase_steps cfg w itemId pn =
     (case w_init w of
        Some e \<Rightarrow> (purchase_catch e, [InitContract])
      | None \<Rightarrow>
        (case w_read w itemId 0 of
          Inl e \<Rightarrow> (purchase_catch e, [InitContract, PurchaseRead itemId 0])
        | Inr item \<Rightarrow>
            if isPurchased item
            then (Inr \<lparr>statusCode = 409,
                        body = ErrorItemBody ''Item already purchased'' itemId\<rparr>,
                  [InitContract, PurchaseRead itemId 0])
            else (case w_encrypt w (OWNER_PUBLIC_KEY cfg) (trim pn) of
              None \<Rightarrow>
                (purchase_catch (Error ''Failed to encrypt purchaser name''),
                 [InitContract, PurchaseRead itemId 0,
                  Encrypt (OWNER_PUBLIC_KEY cfg) (trim pn)])
            | Some encryptedName \<Rightarrow>
                (case w_submit w itemId encryptedName 0 of
                  Inl e \<Rightarrow>
                    (purchase_catch e,
                     [InitContract, PurchaseRead itemId 0,
                      Encrypt (OWNER_PUBLIC_KEY cfg) (trim pn),
                      Submit itemId encryptedName 0])
                | Inr txHash \<Rightarrow>
                    (case w_wait w of
                      Inl e \<Rightarrow>
                        (purchase_catch e,
                         [InitContract, PurchaseRead itemId 0,
                          Encrypt (OWNER_PUBLIC_KEY cfg) (trim pn),
                          Submit itemId encryptedName 0, Wait])
                    | Inr receiptHash \<Rightarrow>
                        (Inr \<lparr>statusCode = 200,
                              body = SuccessBody True itemId receiptHash
                                ''Item marked as purchased successfully''\<rparr>,
                         [InitContract, PurchaseRead itemId 0,
                          Encrypt (OWNER_PUBLIC_KEY cfg) (trim pn),
                          Submit itemId encryptedName 0, Wait,
                          Notify itemId (name item) (JStr pn) receiptHash]))))))"

definition handlePurchase :: "config \<Rightarrow> world \<Rightarrow> event \<Rightarrow> (js_error + response) \<times> io list" where
  "handlePurchase cfg w ev =
     (case ev_body ev of
        Unparseable e \<Rightarrow> (purchase_catch e, [])
      | Body password itemId purchaserName \<Rightarrow>
          let expectedPassword = REGISTRY_PASSWORD cfg in
          if unconfigured expectedPassword
          then (Inr \<lparr>statusCode = 500, body = ErrorBody ''Server configuration error''\<rparr>, [])
          else if \<not> truthy password \<or> \<not> strict_eq password expectedPassword
          then (Inr \<lparr>statusCode = 401, body = ErrorBody ''Invalid password''\<rparr>, [])
          else if itemId = JUndefined \<or> itemId = JNull
          then (Inr \<lparr>statusCode = 400, body = ErrorBody ''itemId is required''\<rparr>, [])
          else if \<not> truthy purchaserName
          then (Inr \<lparr>statusCode = 400, body = ErrorBody ''purchaserName is required''\<rparr>, [])
          else (case purchaserName of
                  JStr pn \<Rightarrow>
                    if trim pn = []
                    then (Inr \<lparr>statusCode = 400,
                                body = ErrorBody ''purchaserName is required''\<rparr>, [])
                    else purchase_steps cfg w itemId pn
                | _ \<Rightarrow> (purchase_catch (Error ''purchaserName.trim is not a function''), [])))"

subsection \<open>The Lambda handler\<close>

definition handler :: "config \<Rightarrow> world \<Rightarrow> event \<Rightarrow> response \<times> io list" where
  "handler cfg w ev =
     (if ev_method ev = ''OPTIONS'' then (\<lparr>statusCode = 200, body = EmptyBody\<rparr>, [])
      else if ev_method ev = ''GET'' \<and> endsWith (ev_path ev) ''/items''
      then handleGetItems w
      else if ev_method ev = ''POST'' \<and> endsWith (ev_path ev) ''/purchase''
      then (case handlePurchase cfg w ev of
              (Inr r, tr) \<Rightarrow> (r, tr)
            | (Inl e, tr) \<Rightarrow>
                (\<lparr>statusCode = 500,
                  body = ErrorMessageBody ''Internal server error'' (err_message e)\<rparr>, tr))
      else if ev_method ev = ''GET'' \<and> endsWith (ev_path ev) ''/health''
      then (\<lparr>statusCode = 200,
             body = HealthBody ''healthy''
               (case w_relayerAddress w of Some a \<Rightarrow> a | None \<Rightarrow> ''not initialized'')
               (CONTRACT_ADDRESS cfg)\<rparr>, [])
      else (\<lparr>statusCode = 404, body = ErrorBody ''Not found''\<rparr>, []))"

subsection \<open>The relayer in front of a registry\<close>

text \<open>
  The getter \<^verbatim>\<open>items(uint256)\<close> that the compiler generates for the public array
  returns the struct at a valid index and reverts without data past the end. What
  ethers throws for that revert (\<open>oob\<close>) and the failures of the transport
  (\<open>faults\<close>, by index and attempt) are parameters.
\<close>

definition chain_items ::
  "registry \<Rightarrow> js_error \<Rightarrow> (nat \<Rightarrow> nat \<Rightarrow> js_error option) \<Rightarrow> nat \<Rightarrow> nat
     \<Rightarrow> js_error + RegistryItem" where
  "chain_items st oob faults index k =
     (case faults index k of
        Some e \<Rightarrow> Inl e
      | None \<Rightarrow> if index < length (items st) then Inr (items st ! index) else Inl oob)"

subsection \<open>The retry policy in the words of the specification\<close>

text \<open>Attempt \<open>k\<close> fails with a failure classified as transient.\<close>

definition transient_failure :: "(nat \<Rightarrow> js_error + 'a) \<Rightarrow> nat \<Rightarrow> bool" where
  "transient_failure fn k = (case fn k of Inl e \<Rightarrow> isRateLimit e | Inr v \<Rightarrow> False)"

text \<open>What the call gives when attempt \<open>k\<close> is the last one made.\<close>

definition attempt_result :: "(nat \<Rightarrow> js_error + 'a) \<Rightarrow> nat \<Rightarrow> 'a outcome" where
  "attempt_result fn k = (case fn k of Inl e \<Rightarrow> Thrown e | Inr v \<Rightarrow> Returned v)"

text \<open>
  Attempts \<open>a\<close> to \<open>k\<close>, each but the last followed by a sleep of the base delay of
  1000 ms doubled once per earlier attempt.
\<close>

definition backoff_trace :: "nat \<Rightarrow> nat \<Rightarrow> retry_event list" where
  "backoff_trace a k = concat (map (\<lambda>j. [Call j, Backoff (2 ^ j * 1000)]) [a..<k]) @ [Call k]"

text \<open>The calls of a purchase that go to the registry, with their invocation number.\<close>

fun store_call_number :: "io \<Rightarrow> nat option" where
  "store_call_number (PurchaseRead v k) = Some k"
| "store_call_number (Submit v c k) = Some k"
| "store_call_number _ = None"

fun is_purchase_read :: "io \<Rightarrow> bool" where
  "is_purchase_read (PurchaseRead v k) = True"
| "is_purchase_read _ = False"

fun is_submit :: "io \<Rightarrow> bool" where
  "is_submit (Submit v c k) = True"
| "is_submit _ = False"

text \<open>
  What ethers throws when the node reports that a call reverts with a reason: a
  \<^verbatim>\<open>CALL_EXCEPTION\<close> whose message quotes the reason. (The library is outside this
  repository; the theorems about the relayer's error mapping take the message as it
  comes and use this error only as an example.)
\<close>

definition revert_error :: "error \<Rightarrow> js_error" where
  "revert_error err =
     \<lparr>err_code = Val ''CALL_EXCEPTION'',
      err_message = Val (''execution reverted: '' @ [CHR 0x22] @ revert_reason err @ [CHR 0x22]),
      err_reason = Val (revert_reason err), err_data = Val ''0x08c379a0''\<rparr>"

text \<open>A request is a purchase request when the handler routes it to \<^verbatim>\<open>handlePurchase\<close>.\<close>

definition purchase_route :: "event \<Rightarrow> bool" where
  "purchase_route ev = (ev_method ev = ''POST'' \<and> endsWith (ev_path ev) ''/purchase'')"

text \<open>The credential of the request is the configured secret.\<close>

definition credential_matches :: "jsval \<Rightarrow> config \<Rightarrow> bool" where
  "credential_matches pw cfg = (case pw of JStr s \<Rightarrow> REGISTRY_PASSWORD cfg = Val s | _ \<Rightarrow> False)"

subsection \<open>The listing in the words of the specification\<close>

text \<open>
  The read of index \<open>i\<close> is the retried call; it yields an item or fails. It gives
  the end-of-range signal when it fails with an error that \<^verbatim>\<open>handleGetItems\<close> takes
  for the end of the array.
\<close>

definition read_result :: "world \<Rightarrow> nat \<Rightarrow> RegistryItem outcome" where
  "read_result w i = fst (retryWithBackoff (w_items w i) default_maxRetries)"

definition end_of_range :: "world \<Rightarrow> nat \<Rightarrow> bool" where
  "end_of_range w i =
     (case read_result w i of
        Returned item \<Rightarrow> False
      | Thrown e \<Rightarrow> isEndOfArray e
      | ReturnedUndefined \<Rightarrow> isEndOfArray undefined_item_error)"

text \<open>The entry for index \<open>i\<close>: the item read there, or the placeholder.\<close>

definition listing_entry :: "world \<Rightarrow> nat \<Rightarrow> listing_item" where
  "listing_entry w i =
     (case read_result w i of
        Returned item \<Rightarrow> format_item i item
      | Thrown e \<Rightarrow> placeholder_item i
      | ReturnedUndefined \<Rightarrow> placeholder_item i)"

text \<open>What the read of index \<open>i\<close> does: its attempts and sleeps, and the pause after a success.\<close>

definition read_trace :: "world \<Rightarrow> nat \<Rightarrow> io list" where
  "read_trace w i =
     map (tag_read i) (snd (retryWithBackoff (w_items w i) default_maxRetries))
     @ (case read_result w i of Returned item \<Rightarrow> [SleepMs 50] | Thrown e \<Rightarrow> []
        | ReturnedUndefined \<Rightarrow> [])"

text \<open>The indices from \<open>i\<close> on, below the bound, before the first end-of-range signal.\<close>

definition scanned :: "world \<Rightarrow> nat \<Rightarrow> nat list" where
  "scanned w i = takeWhile (\<lambda>j. \<not> end_of_range w j) [i..<1024]"

definition stop_index :: "world \<Rightarrow> nat" where
  "stop_index w = length (scanned w 0)"

text \<open>An event of the read of index \<open>i\<close>: an invocation for that index, or a sleep.\<close>

fun read_event_of :: "nat \<Rightarrow> io \<Rightarrow> bool" where
  "read_event_of i (ItemsRead j k) = (j = i)"
| "read_event_of i (SleepMs ms) = True"
| "read_event_of i _ = False"

definition items_route :: "event \<Rightarrow> bool" where
  "items_route ev = (ev_method ev = ''GET'' \<and> endsWith (ev_path ev) ''/items'')"

subsection \<open>The ciphertext field\<close>

text \<open>An item with its encrypted purchaser name blanked.\<close>

definition erase_name :: "RegistryItem \<Rightarrow> RegistryItem" where
  "erase_name it = it\<lparr>encryptedPurchaserName := []\<rparr>"

text \<open>The relayer reading its items from the registry \<open>st\<close>.\<close>

definition reading_from ::
  "world \<Rightarrow> registry \<Rightarrow> js_error \<Rightarrow> (nat \<Rightarrow> nat \<Rightarrow> js_error option) \<Rightarrow> world" where
  "reading_from w st oob faults = w\<lparr>w_items := chain_items st oob faults\<rparr>"

section \<open>Concrete states and requests\<close>

text \<open>The owner deploys the contract; a guest is any other account.\<close>

definition owner_env :: env where
  "owner_env = \<lparr>msg_sender = 1, block_timestamp = 1700000000\<rparr>"

definition guest_env :: env where
  "guest_env = \<lparr>msg_sender = 2, block_timestamp = 1700000060\<rparr>"

definition item_named :: "string \<Rightarrow> RegistryItem" where
  "item_named n = \<lparr>name = n, description = ''Desc'', url = ''url'', imageUrl = ''img'',
                    isPurchased = False, isDeleted = False,
                    encryptedPurchaserName = [], purchasedAt = 0\<rparr>"

text \<open>Three items added by the owner (the set-up of \<^verbatim>\<open>testRemoveItem\<close>).\<close>

definition three_items :: registry where
  "three_items = run (constructor owner_env)
     [(owner_env, AddItem ''Item 1'' ''Desc'' ''url'' ''img''),
      (owner_env, AddItem ''Item 2'' ''Desc'' ''url'' ''img''),
      (owner_env, AddItem ''Item 3'' ''Desc'' ''url'' ''img'')]"

text \<open>Then the middle one removed.\<close>

definition middle_removed :: registry where
  "middle_removed = run three_items [(owner_env, RemoveItem 1)]"

definition remove_then_add :: "(env \<times> call) list" where
  "remove_then_add =
     [(owner_env, RemoveItem 1), (guest_env, RemoveItem 0),
      (owner_env, AddItem ''Item 4'' ''Desc'' ''url'' ''img'')]"

text \<open>A guest's purchase of the first of the three items.\<close>

definition first_purchased :: registry where
  "first_purchased = run three_items [(guest_env, MarkAsPurchased 0 ''enc'')]"

text \<open>Calls of every kind aimed at the removed item, and an addition.\<close>

definition revive_attempts :: "(env \<times> call) list" where
  "revive_attempts =
     [(owner_env, ResetItem 1), (guest_env, MarkAsPurchased 1 ''enc''),
      (owner_env, UpdateItem 1 ''New'' ''Desc'' ''url'' ''img''), (owner_env, RemoveItem 1),
      (owner_env, AddItem ''Item 4'' ''Desc'' ''url'' ''img''),
      (owner_env, TransferOwnership 2)]"

text \<open>A purchase, a reset of it and another purchase, then a removal.\<close>

definition purchase_history :: "(env \<times> call) list" where
  "purchase_history =
     [(owner_env, AddItem ''Item 1'' ''Desc'' ''url'' ''img''),
      (guest_env, MarkAsPurchased 0 ''enc''), (owner_env, ResetItem 0),
      (guest_env, MarkAsPurchased 0 ''enc2''), (owner_env, RemoveItem 0)]"

text \<open>The relayer's configuration and a well-formed purchase request.\<close>

definition relayer_config :: config where
  "relayer_config = \<lparr>REGISTRY_PASSWORD = Val ''secret'', OWNER_PUBLIC_KEY = Val ''04ab'',
                      CONTRACT_ADDRESS = Val ''0xc0''\<rparr>"

definition purchase_request :: event where
  "purchase_request = \<lparr>ev_method = ''POST'', ev_path = ''/purchase'',
                        ev_body = Body (JStr ''secret'') (JNum 0) (JStr ''Ann'')\<rparr>"

text \<open>An error that \<^verbatim>\<open>retryWithBackoff\<close> classifies as transient.\<close>

definition rate_limit_error :: js_error where
  "rate_limit_error = \<lparr>err_code = Val ''SERVER_ERROR'',
                        err_message = Val ''server response 429 Too Many Requests'',
                        err_reason = Undefined, err_data = Undefined\<rparr>"

text \<open>A world in which everything works.\<close>

definition calm_world :: world where
  "calm_world = \<lparr>w_init = None,
                  w_items = (\<lambda>i k. Inr (item_named ''Item 1'')),
                  w_read = (\<lambda>v k. Inr (item_named ''Item 1'')),
                  w_encrypt = (\<lambda>pk n. Some ''ciphertext''),
                  w_submit = (\<lambda>v c k. Inr ''0xabc''),
                  w_wait = Inr ''0xabc'',
                  w_relayerAddress = Some ''0xfe''\<rparr>"

text \<open>
  Worlds in which the first read of a purchase, or the first submission, is rate
  limited, and a second one would succeed.
\<close>

definition flaky_read_world :: world where
  "flaky_read_world =
     calm_world\<lparr>w_read := (\<lambda>v k. if k = 0 then Inl rate_limit_error
                                  else Inr (item_named ''Item 1''))\<rparr>"

definition flaky_submit_world :: world where
  "flaky_submit_world =
     calm_world\<lparr>w_submit := (\<lambda>v c k. if k = 0 then Inl rate_limit_error else Inr ''0xabc'')\<rparr>"

text \<open>A wrapped call that is rate limited twice and then answers.\<close>

definition twice_limited :: "nat \<Rightarrow> js_error + RegistryItem" where
  "twice_limited k = (if k < 2 then Inl rate_limit_error else Inr (item_named ''Item 1''))"

text \<open>Requests with a wrong and with no password, and a relayer without a secret.\<close>

definition wrong_password_request :: event where
  "wrong_password_request = \<lparr>ev_method = ''POST'', ev_path = ''/purchase'',
     ev_body = Body (JStr ''guess'') (JNum 0) (JStr ''Ann'')\<rparr>"

definition no_password_request :: event where
  "no_password_request = \<lparr>ev_method = ''POST'', ev_path = ''/purchase'',
     ev_body = Body JUndefined (JNum 0) (JStr ''Ann'')\<rparr>"

definition no_secret_config :: config where
  "no_secret_config = relayer_config\<lparr>REGISTRY_PASSWORD := Undefined\<rparr>"

text \<open>
  The registry with its middle item removed, as a purchase of item 1 meets it: the
  read returns the item, which is not purchased, and the submission reverts.
\<close>

definition removed_world :: world where
  "removed_world =
     calm_world\<lparr>w_read := (\<lambda>v k. Inr (items middle_removed ! 1)),
                w_submit := (\<lambda>v c k. Inl (revert_error ItemRemoved))\<rparr>"

definition removed_request :: event where
  "removed_request = \<lparr>ev_method = ''POST'', ev_path = ''/purchase'',
     ev_body = Body (JStr ''secret'') (JNum 1) (JStr ''Ann'')\<rparr>"

text \<open>
  A purchase that loses the race before its submission: the item is bought between
  the relayer's read and its call of \<^verbatim>\<open>markAsPurchased\<close>, and the revert comes back
  with its reason.
\<close>

definition raced_world :: world where
  "raced_world = calm_world\<lparr>w_submit := (\<lambda>v c k. Inl (revert_error AlreadyPurchased))\<rparr>"

text \<open>
  A listing over seven items in which the read of index 5 fails with a decoding
  error and the read of index 7 gives what ethers throws past the end of the array.
\<close>

definition decode_error :: js_error where
  "decode_error = \<lparr>err_code = Val ''BAD_DATA'',
                    err_message = Val ''could not decode result data'',
                    err_reason = Undefined, err_data = Undefined\<rparr>"

definition end_error :: js_error where
  "end_error = \<lparr>err_code = Val ''CALL_EXCEPTION'', err_message = Val ''missing revert data'',
                 err_reason = Null, err_data = Null\<rparr>"

definition scenario_E_world :: world where
  "scenario_E_world =
     calm_world\<lparr>w_items := (\<lambda>i k. if i = 5 then Inl decode_error
                                   else if i < 7 then Inr (item_named ''Item 1'')
                                   else Inl end_error)\<rparr>"

definition items_request :: event where
  "items_request = \<lparr>ev_method = ''GET'', ev_path = ''/items'',
                     ev_body = Body JUndefined JUndefined JUndefined\<rparr>"

text \<open>The same purchase as in \<open>first_purchased\<close> with another ciphertext.\<close>

definition other_purchased :: registry where
  "other_purchased = run three_items [(guest_env, MarkAsPurchased 0 ''other'')]"

definition no_faults :: "nat \<Rightarrow> nat \<Rightarrow> js_error option" where
  "no_faults i k = None"

text \<open>A request whose body is not JSON.\<close>

definition unparseable_request :: event where
  "unparseable_request = \<lparr>ev_method = ''POST'', ev_path = ''/purchase'',
     ev_body = Unparseable (Error ''Unexpected end of JSON input'')\<rparr>"

text \<open>
  A purchase that loses the race at mining time: the call of \<^verbatim>\<open>markAsPurchased\<close>
  returns a transaction, the item is bought before that transaction is mined, and
  \<^verbatim>\<open>tx.wait()\<close> throws what ethers throws for a mined transaction that reverted, an
  error without the reason.
\<close>

definition mined_revert_error :: js_error where
  "mined_revert_error = \<lparr>err_code = Val ''CALL_EXCEPTION'',
                          err_message = Val ''transaction execution reverted'',
                          err_reason = Null, err_data = Null\<rparr>"

definition lost_race_world :: world where
  "lost_race_world = calm_world\<lparr>w_wait := Inl mined_revert_error\<rparr>"

section \<open>Evaluating the concrete states\<close>

lemma three_items_eq:
  "three_items = \<lparr>owner = 1, items = [item_named ''Item 1'', item_named ''Item 2'',
     item_named ''Item 3'']\<rparr>"
  by (simp add: three_items_def run_def apply_tx_def addItem_def onlyOwner_def
      constructor_def owner_env_def item_named_def)

lemma middle_removed_eq:
  "middle_removed = \<lparr>owner = 1, items = [item_named ''Item 1'',
     (item_named ''Item 2'')\<lparr>isDeleted := True\<rparr>, item_named ''Item 3'']\<rparr>"
  by (simp add: middle_removed_def three_items_eq run_def apply_tx_def removeItem_def
      onlyOwner_def validItemId_def owner_env_def item_named_def)

lemma first_purchased_eq:
  "first_purchased = \<lparr>owner = 1, items = [(item_named ''Item 1'')\<lparr>isPurchased := True,
     encryptedPurchaserName := ''enc'', purchasedAt := 1700000060\<rparr>,
     item_named ''Item 2'', item_named ''Item 3'']\<rparr>"
  by (simp add: first_purchased_def three_items_eq run_def apply_tx_def
      markAsPurchased_def validItemId_def guest_env_def item_named_def)

lemma other_purchased_eq:
  "other_purchased = \<lparr>owner = 1, items = [(item_named ''Item 1'')\<lparr>isPurchased := True,
     encryptedPurchaserName := ''other'', purchasedAt := 1700000060\<rparr>,
     item_named ''Item 2'', item_named ''Item 3'']\<rparr>"
  by (simp add: other_purchased_def three_items_eq run_def apply_tx_def
      markAsPurchased_def validItemId_def guest_env_def item_named_def)

section \<open>The views of the registry\<close>

text \<open>The counting loop counts the items from \<open>i\<close> on that pass the test.\<close>

lemma count_loop_filter:
  "count_loop P its i c = c + length (filter P (drop i its))"
proof (induction P its i c rule: count_loop.induct)
  case (1 P its i c)
  show ?case
  proof (cases "i < length its")
    case True
    then have d: "drop i its = its ! i # drop (Suc i) its"
      by (simp add: Cons_nth_drop_Suc)
    from True 1 show ?thesis
      by (subst count_loop.simps) (simp add: d)
  next
    case False
    then show ?thesis by (subst count_loop.simps) simp
  qed
qed

text \<open>
  The filling loop, started with enough room behind \<open>c\<close>, never leaves the array and
  writes the passing items in their order.
\<close>

lemma fill_loop_filter:
  "c + length (filter P (drop i its)) \<le> length out \<Longrightarrow>
   fill_loop P its i c out =
     Inr (take c out @ filter P (drop i its) @ drop (c + length (filter P (drop i its))) out)"
proof (induction P its i c out rule: fill_loop.induct)
  case (1 P its i c out)
  show ?case
  proof (cases "i < length its")
    case False
    then have "fill_loop P its i c out = Inr out"
      by (subst fill_loop.simps) (simp del: fill_loop.simps)
    with False show ?thesis by (simp del: fill_loop.simps)
  next
    case True
    then have d: "drop i its = its ! i # drop (Suc i) its"
      by (simp add: Cons_nth_drop_Suc)
    show ?thesis
    proof (cases "P (its ! i)")
      case False
      with True have u: "fill_loop P its i c out = fill_loop P its (Suc i) c out"
        by (subst fill_loop.simps) (simp del: fill_loop.simps)
      have pre: "c + length (filter P (drop (Suc i) its)) \<le> length out"
        using 1(3) False by (simp add: d)
      from 1(2)[OF True False pre] False show ?thesis
        unfolding u by (simp add: d del: fill_loop.simps)
    next
      case P: True
      from 1(3) P have lt: "c < length out" by (simp add: d)
      from True P lt have u: "fill_loop P its i c out =
          fill_loop P its (Suc i) (Suc c) (out[c := its ! i])"
        by (subst fill_loop.simps) (simp del: fill_loop.simps)
      have pre: "Suc c + length (filter P (drop (Suc i) its)) \<le> length (out[c := its ! i])"
        using 1(3) P by (simp add: d)
      have tk: "take (Suc c) (out[c := its ! i]) = take c out @ [its ! i]"
        using lt by (simp add: take_Suc_conv_app_nth)
      have "fill_loop P its (Suc i) (Suc c) (out[c := its ! i]) =
          Inr (take (Suc c) (out[c := its ! i]) @ filter P (drop (Suc i) its) @
            drop (Suc c + length (filter P (drop (Suc i) its))) (out[c := its ! i]))"
        by (rule 1(1)[OF True P lt pre])
      then show ?thesis
        unfolding u tk using P by (simp add: d del: fill_loop.simps)
    qed
  qed
qed

lemma filtered_view_filter: "filtered_view P st = Inr (filter P (items st))"
  unfolding filtered_view_def Let_def
  by (subst fill_loop_filter)
    (simp_all add: count_loop_filter del: fill_loop.simps count_loop.simps)

lemma mset_filter_split:
  "mset (filter P xs) + mset (filter (\<lambda>x. \<not> P x) xs) = mset xs"
  by (induction xs) simp_all

text \<open>
  Claim C4 (view consistency). In every state of the registry (so in every reachable
  one) the three list views return without a panic, \<^verbatim>\<open>getAllItems\<close> returns exactly
  the items that are not deleted, \<^verbatim>\<open>getAvailableItems\<close> those that are neither deleted
  nor purchased, \<^verbatim>\<open>getPurchasedItems\<close> those that are purchased and not deleted, each
  in the order of the underlying array; the available and the purchased list have no
  item in common and are the two parts of the list of all items, split by the
  purchased flag; \<^verbatim>\<open>getItemCount\<close> is the length of the list of all items; and that
  list together with the deleted items is the whole array.
\<close>

theorem view_consistency:
  "\<exists>all avail purch.
     getAllItems st = Inr all \<and> getAvailableItems st = Inr avail
     \<and> getPurchasedItems st = Inr purch
     \<and> all = filter (\<lambda>it. \<not> isDeleted it) (items st)
     \<and> avail = filter (\<lambda>it. \<not> isDeleted it \<and> \<not> isPurchased it) (items st)
     \<and> purch = filter (\<lambda>it. \<not> isDeleted it \<and> isPurchased it) (items st)
     \<and> set avail \<inter> set purch = {}
     \<and> avail = filter (\<lambda>it. \<not> isPurchased it) all
     \<and> purch = filter (\<lambda>it. isPurchased it) all
     \<and> mset avail + mset purch = mset all
     \<and> getItemCount st = length all
     \<and> mset all + mset (filter (\<lambda>it. isDeleted it) (items st)) = mset (items st)"
proof -
  let ?all = "filter (\<lambda>it. \<not> isDeleted it) (items st)"
  let ?avail = "filter (\<lambda>it. \<not> isDeleted it \<and> \<not> isPurchased it) (items st)"
  let ?purch = "filter (\<lambda>it. \<not> isDeleted it \<and> isPurchased it) (items st)"
  have a: "getAllItems st = Inr ?all"
    by (simp add: getAllItems_def filtered_view_filter is_active_def [abs_def])
  have b: "getAvailableItems st = Inr ?avail"
    by (simp add: getAvailableItems_def filtered_view_filter is_available_def [abs_def])
  have c: "getPurchasedItems st = Inr ?purch"
    by (simp add: getPurchasedItems_def filtered_view_filter is_purchased_def [abs_def])
  have d: "set ?avail \<inter> set ?purch = {}" by auto
  have e: "?avail = filter (\<lambda>it. \<not> isPurchased it) ?all"
    by (simp add: conj_commute)
  have f: "?purch = filter (\<lambda>it. isPurchased it) ?all"
    by (simp add: conj_commute)
  have g: "mset ?avail + mset ?purch = mset ?all"
    unfolding e f using mset_filter_split [of "\<lambda>it. isPurchased it" ?all]
    by (simp add: add.commute)
  have h: "getItemCount st = length ?all"
    by (simp add: getItemCount_def count_loop_filter is_active_def [abs_def]
        del: count_loop.simps)
  have i: "mset ?all + mset (filter (\<lambda>it. isDeleted it) (items st)) = mset (items st)"
    using mset_filter_split [of "\<lambda>it. isDeleted it" "items st"]
    by (simp add: add.commute)
  from a b c d e f g h i show ?thesis by blast
qed

theorem view_consistency_witness:
  "getAllItems middle_removed = Inr [item_named ''Item 1'', item_named ''Item 3'']
   \<and> getAvailableItems middle_removed = Inr [item_named ''Item 1'', item_named ''Item 3'']
   \<and> getPurchasedItems middle_removed = Inr []
   \<and> getItemCount middle_removed = 2"
  using view_consistency [of middle_removed]
  by (auto simp add: middle_removed_eq item_named_def)

section \<open>Transactions on the registry\<close>

lemmas op_defs = addItem_def updateItem_def removeItem_def markAsPurchased_def
  resetItem_def transferOwnership_def onlyOwner_def validItemId_def

lemma run_Nil: "run st [] = st"
  by (simp add: run_def)

lemma run_Cons: "run st (tx # txs) = run (apply_tx st tx) txs"
  by (simp add: run_def)

lemma run_snoc: "run st (txs @ [tx]) = apply_tx (run st txs) tx"
  by (simp add: run_def)

lemma exec_length:
  "exec e c st = Inr st' \<Longrightarrow> length (items st) \<le> length (items st')"
  by (cases c) (auto simp: op_defs Let_def split: if_splits)

lemma apply_tx_length: "length (items st) \<le> length (items (apply_tx st tx))"
  by (auto simp: apply_tx_def split: sum.splits dest: exec_length)

lemma run_length: "length (items st) \<le> length (items (run st txs))"
proof (induction txs arbitrary: st)
  case Nil
  show ?case by (simp add: run_Nil)
next
  case (Cons tx txs)
  have "length (items st) \<le> length (items (apply_tx st tx))"
    by (rule apply_tx_length)
  also have "\<dots> \<le> length (items (run (apply_tx st tx) txs))"
    by (rule Cons.IH)
  finally show ?case by (simp add: run_Cons)
qed

lemma reachable_run: "reachable st \<Longrightarrow> reachable (run st txs)"
proof (induction txs arbitrary: st)
  case Nil
  then show ?case by (simp add: run_Nil)
next
  case (Cons tx txs)
  then show ?case by (simp add: run_Cons reach_step)
qed

text \<open>A deleted item stays deleted through any one call, committed or reverted.\<close>

lemma exec_keeps_deleted:
  "exec e c st = Inr st' \<Longrightarrow> k < length (items st) \<Longrightarrow> isDeleted (items st ! k)
     \<Longrightarrow> isDeleted (items st' ! k)"
  by (cases c) (auto simp: op_defs Let_def nth_append nth_list_update split: if_splits)

lemma apply_tx_keeps_deleted:
  "k < length (items st) \<Longrightarrow> isDeleted (items st ! k)
     \<Longrightarrow> isDeleted (items (apply_tx st tx) ! k)"
  by (auto simp: apply_tx_def split: sum.splits dest: exec_keeps_deleted)

lemma run_keeps_deleted:
  "k < length (items st) \<Longrightarrow> isDeleted (items st ! k)
     \<Longrightarrow> isDeleted (items (run st txs) ! k)"
proof (induction txs arbitrary: st)
  case Nil
  then show ?case by (simp add: run_Nil)
next
  case (Cons tx txs)
  have "k < length (items (apply_tx st tx))"
    using Cons.prems(1) apply_tx_length [of st tx] by simp
  moreover have "isDeleted (items (apply_tx st tx) ! k)"
    using Cons.prems by (rule apply_tx_keeps_deleted)
  ultimately show ?case by (simp add: run_Cons Cons.IH)
qed

text \<open>
  Through \<^verbatim>\<open>addItem\<close> and \<^verbatim>\<open>removeItem\<close> an item changes in its deleted flag at most.
\<close>

lemma same_item_refl: "same_item a a"
  by (simp add: same_item_def)

lemma same_item_trans: "same_item a b \<Longrightarrow> same_item b c \<Longrightarrow> same_item a c"
  by (simp add: same_item_def)

lemma exec_add_remove_item:
  "add_or_remove c \<Longrightarrow> exec e c st = Inr st' \<Longrightarrow> i < length (items st)
     \<Longrightarrow> same_item (items st ! i) (items st' ! i)"
  by (cases c)
    (auto simp: op_defs Let_def nth_append nth_list_update same_item_def split: if_splits)

lemma apply_tx_add_remove_item:
  "add_or_remove (snd tx) \<Longrightarrow> i < length (items st)
     \<Longrightarrow> same_item (items st ! i) (items (apply_tx st tx) ! i)"
  by (auto simp: apply_tx_def same_item_refl split: sum.splits dest: exec_add_remove_item)

lemma run_add_remove_item:
  "list_all (\<lambda>tx. add_or_remove (snd tx)) txs \<Longrightarrow> i < length (items st)
     \<Longrightarrow> same_item (items st ! i) (items (run st txs) ! i)"
proof (induction txs arbitrary: st)
  case Nil
  then show ?case by (simp add: run_Nil same_item_refl)
next
  case (Cons tx txs)
  let ?s = "apply_tx st tx"
  have len: "i < length (items ?s)"
    using Cons.prems(2) apply_tx_length [of st tx] by simp
  have one: "same_item (items st ! i) (items ?s ! i)"
    using Cons.prems by (simp add: apply_tx_add_remove_item)
  have rest: "same_item (items ?s ! i) (items (run ?s txs) ! i)"
    using Cons.prems(1) len by (simp add: Cons.IH)
  from one rest show ?case
    unfolding run_Cons by (rule same_item_trans)
qed

section \<open>Index stability\<close>

text \<open>
  Claim C1 (index stability). The array of items never gets shorter, whatever is
  called. Through every sequence of \<^verbatim>\<open>addItem\<close> and \<^verbatim>\<open>removeItem\<close> transactions
  (committed or reverted, from any sender) an index that is in use keeps referring to
  the same item: the entry there changes in its deleted flag at most, and that flag is
  never cleared. A successful \<^verbatim>\<open>addItem\<close> appends: the old entries stay where they
  are and the new item gets the next index. A successful \<^verbatim>\<open>removeItem\<close> sets the
  deleted flag of the one entry and changes nothing else: no entry is shifted,
  renumbered or removed.
\<close>

theorem index_stability:
  "length (items st) \<le> length (items (run st txs))
   \<and> (list_all (\<lambda>tx. add_or_remove (snd tx)) txs \<and> i < length (items st) \<longrightarrow>
        i < length (items (run st txs))
        \<and> same_item (items st ! i) (items (run st txs) ! i)
        \<and> (isDeleted (items st ! i) \<longrightarrow> isDeleted (items (run st txs) ! i)))
   \<and> (\<forall>st'. addItem e n d u im st = Inr st' \<longrightarrow>
        length (items st') = Suc (length (items st))
        \<and> take (length (items st)) (items st') = items st
        \<and> name (items st' ! length (items st)) = n
        \<and> description (items st' ! length (items st)) = d
        \<and> url (items st' ! length (items st)) = u
        \<and> imageUrl (items st' ! length (items st)) = im
        \<and> \<not> isDeleted (items st' ! length (items st)))
   \<and> (\<forall>st'. removeItem e k st = Inr st' \<longrightarrow>
        length (items st') = length (items st)
        \<and> items st' = (items st)[k := (items st ! k)\<lparr>isDeleted := True\<rparr>]
        \<and> (\<forall>j. j \<noteq> k \<longrightarrow> items st' ! j = items st ! j)
        \<and> same_item (items st ! k) (items st' ! k)
        \<and> isDeleted (items st' ! k)
        \<and> owner st' = owner st)"
proof (intro conjI impI allI)
  show "length (items st) \<le> length (items (run st txs))"
    by (rule run_length)
next
  assume a: "list_all (\<lambda>tx. add_or_remove (snd tx)) txs \<and> i < length (items st)"
  then show "i < length (items (run st txs))"
    using run_length [of st txs] by simp
  from a show "same_item (items st ! i) (items (run st txs) ! i)"
    by (simp add: run_add_remove_item)
  assume "isDeleted (items st ! i)"
  with a show "isDeleted (items (run st txs) ! i)"
    by (simp add: run_keeps_deleted)
next
  fix st'
  assume a: "addItem e n d u im st = Inr st'"
  then have eq: "items st' = items st @ [\<lparr>name = n, description = d, url = u, imageUrl = im,
      isPurchased = False, isDeleted = False, encryptedPurchaserName = [],
      purchasedAt = 0\<rparr>]"
    by (auto simp: addItem_def Let_def split: if_splits)
  show "length (items st') = Suc (length (items st))" by (simp add: eq)
  show "take (length (items st)) (items st') = items st" by (simp add: eq)
  show "name (items st' ! length (items st)) = n" by (simp add: eq)
  show "description (items st' ! length (items st)) = d" by (simp add: eq)
  show "url (items st' ! length (items st)) = u" by (simp add: eq)
  show "imageUrl (items st' ! length (items st)) = im" by (simp add: eq)
  show "\<not> isDeleted (items st' ! length (items st))" by (simp add: eq)
next
  fix st'
  assume a: "removeItem e k st = Inr st'"
  then have k: "k < length (items st)"
    by (auto simp: removeItem_def validItemId_def split: if_splits)
  from a have eq: "st' = st\<lparr>items := (items st)[k := (items st ! k)\<lparr>isDeleted := True\<rparr>]\<rparr>"
    by (auto simp: removeItem_def split: if_splits)
  show "length (items st') = length (items st)" by (simp add: eq)
  show "items st' = (items st)[k := (items st ! k)\<lparr>isDeleted := True\<rparr>]" by (simp add: eq)
  show "same_item (items st ! k) (items st' ! k)" using k by (simp add: eq same_item_def)
  show "isDeleted (items st' ! k)" using k by (simp add: eq)
  show "owner st' = owner st" by (simp add: eq)
  fix j
  assume "j \<noteq> k"
  then show "items st' ! j = items st ! j" by (simp add: eq)
qed

theorem index_stability_witness:
  "list_all (\<lambda>tx. add_or_remove (snd tx)) remove_then_add
   \<and> 2 < length (items three_items)
   \<and> 2 < length (items (run three_items remove_then_add))
   \<and> same_item (items three_items ! 2) (items (run three_items remove_then_add) ! 2)
   \<and> length (items three_items) \<le> length (items (run three_items remove_then_add))
   \<and> removeItem owner_env 1 three_items = Inr middle_removed
   \<and> length (items middle_removed) = length (items three_items)
   \<and> same_item (items three_items ! 1) (items middle_removed ! 1)
   \<and> isDeleted (items middle_removed ! 1)
   \<and> addItem owner_env ''Item 4'' ''Desc'' ''url'' ''img'' middle_removed =
       Inr (run middle_removed [(owner_env, AddItem ''Item 4'' ''Desc'' ''url'' ''img'')])
   \<and> take 3 (items (run middle_removed
         [(owner_env, AddItem ''Item 4'' ''Desc'' ''url'' ''img'')])) = items middle_removed
   \<and> name (items (run middle_removed
         [(owner_env, AddItem ''Item 4'' ''Desc'' ''url'' ''img'')]) ! 3) = ''Item 4''"
proof -
  have a: "list_all (\<lambda>tx. add_or_remove (snd tx)) remove_then_add"
    by (simp add: remove_then_add_def)
  have b: "2 < length (items three_items)"
    by (simp add: three_items_eq)
  have c: "removeItem owner_env 1 three_items = Inr middle_removed"
    by (simp add: middle_removed_eq three_items_eq removeItem_def onlyOwner_def
        validItemId_def owner_env_def item_named_def)
  have d: "addItem owner_env ''Item 4'' ''Desc'' ''url'' ''img'' middle_removed =
       Inr (run middle_removed [(owner_env, AddItem ''Item 4'' ''Desc'' ''url'' ''img'')])"
    by (simp add: run_def apply_tx_def addItem_def onlyOwner_def middle_removed_eq
        owner_env_def)
  have e: "length (items middle_removed) = 3"
    by (simp add: middle_removed_eq)
  from a b c index_stability [of three_items remove_then_add 2 owner_env _ _ _ _ 1]
  have 1: "2 < length (items (run three_items remove_then_add))
   \<and> same_item (items three_items ! 2) (items (run three_items remove_then_add) ! 2)
   \<and> length (items three_items) \<le> length (items (run three_items remove_then_add))
   \<and> length (items middle_removed) = length (items three_items)
   \<and> same_item (items three_items ! 1) (items middle_removed ! 1)
   \<and> isDeleted (items middle_removed ! 1)"
    by blast
  from d e index_stability [of middle_removed "[]" 0 owner_env "''Item 4''" "''Desc''"
      "''url''" "''img''" 0]
  have 2: "take 3 (items (run middle_removed
         [(owner_env, AddItem ''Item 4'' ''Desc'' ''url'' ''img'')])) = items middle_removed
   \<and> name (items (run middle_removed
         [(owner_env, AddItem ''Item 4'' ''Desc'' ''url'' ''img'')]) ! 3) = ''Item 4''"
    by simp
  from a b c d 1 2 show ?thesis by blast
qed

section \<open>The contract of markAsPurchased\<close>

text \<open>
  Claim C3 (\<^verbatim>\<open>markAsPurchased\<close>). The call succeeds exactly when the id is a valid
  index, the item is neither deleted nor purchased, and the encrypted name is not
  empty. On success the item is purchased, carries the given name and the time of the
  block, and nothing else in the registry changes. Otherwise the call reverts with
  the error of the first check that fails (invalid id, item removed, already
  purchased, name required, in this order) and the registry is as before. After a
  success, another \<^verbatim>\<open>markAsPurchased\<close> of that item reverts with "already purchased",
  whoever calls it, at any time and with any name.
\<close>

theorem markAsPurchased_contract:
  "((\<exists>st'. markAsPurchased e k c st = Inr st') \<longleftrightarrow>
      (k < length (items st) \<and> \<not> isDeleted (items st ! k) \<and> \<not> isPurchased (items st ! k)
       \<and> c \<noteq> []))
   \<and> (\<forall>st'. markAsPurchased e k c st = Inr st' \<longrightarrow>
        apply_tx st (e, MarkAsPurchased k c) = st'
        \<and> isPurchased (items st' ! k)
        \<and> encryptedPurchaserName (items st' ! k) = c
        \<and> purchasedAt (items st' ! k) = block_timestamp e
        \<and> items st' ! k = (items st ! k)\<lparr>isPurchased := True,
             encryptedPurchaserName := c, purchasedAt := block_timestamp e\<rparr>
        \<and> (\<forall>j. j \<noteq> k \<longrightarrow> items st' ! j = items st ! j)
        \<and> length (items st') = length (items st)
        \<and> owner st' = owner st
        \<and> (\<forall>e' c'. markAsPurchased e' k c' st' = Inl AlreadyPurchased))
   \<and> (\<forall>err. markAsPurchased e k c st = Inl err \<longrightarrow>
        apply_tx st (e, MarkAsPurchased k c) = st
        \<and> err = (if \<not> k < length (items st) then InvalidId
                  else if isDeleted (items st ! k) then ItemRemoved
                  else if isPurchased (items st ! k) then AlreadyPurchased
                  else EmptyName))"
proof (intro conjI allI impI)
  show "(\<exists>st'. markAsPurchased e k c st = Inr st') \<longleftrightarrow>
      (k < length (items st) \<and> \<not> isDeleted (items st ! k) \<and> \<not> isPurchased (items st ! k)
       \<and> c \<noteq> [])"
    by (auto simp: markAsPurchased_def validItemId_def Let_def)
next
  fix st'
  assume a: "markAsPurchased e k c st = Inr st'"
  then have k: "k < length (items st)"
    by (auto simp: markAsPurchased_def validItemId_def split: if_splits)
  from a have nd: "\<not> isDeleted (items st ! k)"
    by (auto simp: markAsPurchased_def validItemId_def Let_def split: if_splits)
  from a have eq: "st' = st\<lparr>items := (items st)[k := (items st ! k)\<lparr>isPurchased := True,
      encryptedPurchaserName := c, purchasedAt := block_timestamp e\<rparr>]\<rparr>"
    by (auto simp: markAsPurchased_def Let_def split: if_splits)
  show "apply_tx st (e, MarkAsPurchased k c) = st'"
    using a by (simp add: apply_tx_def)
  show "isPurchased (items st' ! k)" using k by (simp add: eq)
  show "encryptedPurchaserName (items st' ! k) = c" using k by (simp add: eq)
  show "purchasedAt (items st' ! k) = block_timestamp e" using k by (simp add: eq)
  show "items st' ! k = (items st ! k)\<lparr>isPurchased := True,
      encryptedPurchaserName := c, purchasedAt := block_timestamp e\<rparr>"
    using k by (simp add: eq)
  show "length (items st') = length (items st)" by (simp add: eq)
  show "owner st' = owner st" by (simp add: eq)
  show "markAsPurchased e' k c' st' = Inl AlreadyPurchased" for e' c'
    using k nd by (simp add: eq markAsPurchased_def validItemId_def)
  show "items st' ! j = items st ! j" if "j \<noteq> k" for j
    using that by (simp add: eq)
next
  fix err
  assume a: "markAsPurchased e k c st = Inl err"
  then show "apply_tx st (e, MarkAsPurchased k c) = st"
    by (simp add: apply_tx_def)
  from a show "err = (if \<not> k < length (items st) then InvalidId
                  else if isDeleted (items st ! k) then ItemRemoved
                  else if isPurchased (items st ! k) then AlreadyPurchased
                  else EmptyName)"
    by (auto simp: markAsPurchased_def validItemId_def Let_def split: if_splits)
qed

text \<open>Scenario B of the specification, through the theorem.\<close>

theorem markAsPurchased_contract_witness:
  "markAsPurchased guest_env 0 ''enc'' three_items = Inr first_purchased
   \<and> isPurchased (items first_purchased ! 0)
   \<and> encryptedPurchaserName (items first_purchased ! 0) = ''enc''
   \<and> purchasedAt (items first_purchased ! 0) = 1700000060
   \<and> markAsPurchased guest_env 0 ''enc2'' first_purchased = Inl AlreadyPurchased
   \<and> apply_tx first_purchased (guest_env, MarkAsPurchased 0 ''enc2'') = first_purchased"
proof -
  have a: "markAsPurchased guest_env 0 ''enc'' three_items = Inr first_purchased"
    by (simp add: first_purchased_eq three_items_eq markAsPurchased_def validItemId_def
        guest_env_def item_named_def)
  have b: "block_timestamp guest_env = 1700000060"
    by (simp add: guest_env_def)
  from markAsPurchased_contract [of guest_env 0 "''enc''" three_items] a b
  have c: "isPurchased (items first_purchased ! 0)
    \<and> encryptedPurchaserName (items first_purchased ! 0) = ''enc''
    \<and> purchasedAt (items first_purchased ! 0) = 1700000060
    \<and> markAsPurchased guest_env 0 ''enc2'' first_purchased = Inl AlreadyPurchased"
    by simp
  from markAsPurchased_contract [of guest_env 0 "''enc2''" first_purchased] c
  have "apply_tx first_purchased (guest_env, MarkAsPurchased 0 ''enc2'') = first_purchased"
    by simp
  with a c show ?thesis by simp
qed

section \<open>Deletion is final\<close>

text \<open>
  Claim C2 as the specification states it says that every mutating call on a deleted
  item fails with the deleted-item error. The owner check of \<^verbatim>\<open>updateItem\<close>,
  \<^verbatim>\<open>removeItem\<close> and \<^verbatim>\<open>resetItem\<close> comes first: in a reachable state with item 1
  deleted, a guest's \<^verbatim>\<open>updateItem(1, ...)\<close> reverts with "Only owner can call this
  function", which is not a deleted-item error.
\<close>

theorem delete_monotonicity_counterexample:
  "reachable middle_removed
   \<and> isDeleted (items middle_removed ! 1)
   \<and> updateItem guest_env 1 ''New'' ''Desc'' ''url'' ''img'' middle_removed = Inl NotOwner
   \<and> \<not> deleted_error NotOwner"
proof -
  have "reachable (constructor owner_env)" by (rule reach_init)
  then have "reachable three_items"
    unfolding three_items_def by (rule reachable_run)
  then have "reachable middle_removed"
    unfolding middle_removed_def by (rule reachable_run)
  then show ?thesis
    by (simp add: middle_removed_eq updateItem_def onlyOwner_def guest_env_def)
qed

text \<open>
  Claim C2, amended (delete monotonicity). For every state of the registry (so for
  every reachable one) and every item in it that is deleted: the item is still there
  and still deleted after any sequence of transactions of any kind; and each of
  \<^verbatim>\<open>updateItem\<close>, \<^verbatim>\<open>removeItem\<close>, \<^verbatim>\<open>markAsPurchased\<close> and \<^verbatim>\<open>resetItem\<close> on
  that id reverts and leaves the registry unchanged, with the deleted-item error
  of the function when the caller passes its owner check (\<^verbatim>\<open>markAsPurchased\<close> has
  none), and with the owner error when an owner-only function is called by someone
  else.
\<close>

theorem delete_monotonicity:
  "k < length (items st) \<and> isDeleted (items st ! k) \<longrightarrow>
     k < length (items (run st txs)) \<and> isDeleted (items (run st txs) ! k)
     \<and> updateItem e k n d u im st =
          Inl (if msg_sender e = owner st then UpdateDeleted else NotOwner)
     \<and> removeItem e k st = Inl (if msg_sender e = owner st then AlreadyDeleted else NotOwner)
     \<and> markAsPurchased e k c st = Inl ItemRemoved
     \<and> resetItem e k st = Inl (if msg_sender e = owner st then ResetDeleted else NotOwner)
     \<and> apply_tx st (e, UpdateItem k n d u im) = st
     \<and> apply_tx st (e, RemoveItem k) = st
     \<and> apply_tx st (e, MarkAsPurchased k c) = st
     \<and> apply_tx st (e, ResetItem k) = st
     \<and> deleted_error UpdateDeleted \<and> deleted_error AlreadyDeleted
     \<and> deleted_error ItemRemoved \<and> deleted_error ResetDeleted"
proof (intro impI)
  assume a: "k < length (items st) \<and> isDeleted (items st ! k)"
  have 1: "k < length (items (run st txs))"
    using a run_length [of st txs] by simp
  have 2: "isDeleted (items (run st txs) ! k)"
    using a by (simp add: run_keeps_deleted)
  have 3: "updateItem e k n d u im st =
      Inl (if msg_sender e = owner st then UpdateDeleted else NotOwner)"
    using a by (simp add: updateItem_def onlyOwner_def validItemId_def)
  have 4: "removeItem e k st = Inl (if msg_sender e = owner st then AlreadyDeleted else NotOwner)"
    using a by (simp add: removeItem_def onlyOwner_def validItemId_def)
  have 5: "markAsPurchased e k c st = Inl ItemRemoved"
    using a by (simp add: markAsPurchased_def validItemId_def)
  have 6: "resetItem e k st = Inl (if msg_sender e = owner st then ResetDeleted else NotOwner)"
    using a by (simp add: resetItem_def onlyOwner_def validItemId_def)
  have 7: "apply_tx st (e, UpdateItem k n d u im) = st"
    by (simp add: apply_tx_def 3)
  have 8: "apply_tx st (e, RemoveItem k) = st"
    by (simp add: apply_tx_def 4)
  have 9: "apply_tx st (e, MarkAsPurchased k c) = st"
    by (simp add: apply_tx_def 5)
  have 10: "apply_tx st (e, ResetItem k) = st"
    by (simp add: apply_tx_def 6)
  from 1 2 3 4 5 6 7 8 9 10
  show "k < length (items (run st txs)) \<and> isDeleted (items (run st txs) ! k)
     \<and> updateItem e k n d u im st =
          Inl (if msg_sender e = owner st then UpdateDeleted else NotOwner)
     \<and> removeItem e k st = Inl (if msg_sender e = owner st then AlreadyDeleted else NotOwner)
     \<and> markAsPurchased e k c st = Inl ItemRemoved
     \<and> resetItem e k st = Inl (if msg_sender e = owner st then ResetDeleted else NotOwner)
     \<and> apply_tx st (e, UpdateItem k n d u im) = st
     \<and> apply_tx st (e, RemoveItem k) = st
     \<and> apply_tx st (e, MarkAsPurchased k c) = st
     \<and> apply_tx st (e, ResetItem k) = st
     \<and> deleted_error UpdateDeleted \<and> deleted_error AlreadyDeleted
     \<and> deleted_error ItemRemoved \<and> deleted_error ResetDeleted"
    by simp
qed

text \<open>Scenario C of the specification and more, through the theorem.\<close>

theorem delete_monotonicity_witness:
  "1 < length (items middle_removed)
   \<and> isDeleted (items middle_removed ! 1)
   \<and> isDeleted (items (run middle_removed revive_attempts) ! 1)
   \<and> updateItem owner_env 1 ''New'' ''Desc'' ''url'' ''img'' middle_removed = Inl UpdateDeleted
   \<and> removeItem owner_env 1 middle_removed = Inl AlreadyDeleted
   \<and> markAsPurchased owner_env 1 ''enc'' middle_removed = Inl ItemRemoved
   \<and> resetItem owner_env 1 middle_removed = Inl ResetDeleted"
proof -
  have a: "1 < length (items middle_removed) \<and> isDeleted (items middle_removed ! 1)"
    by (simp add: middle_removed_eq)
  have b: "msg_sender owner_env = owner middle_removed"
    by (simp add: middle_removed_eq owner_env_def)
  from a b delete_monotonicity [of 1 middle_removed revive_attempts owner_env
      "''New''" "''Desc''" "''url''" "''img''" "''enc''"]
  show ?thesis by simp
qed

section \<open>The purchase fields\<close>

lemma exec_I2:
  "I2 st \<Longrightarrow> stamped (e, c) \<Longrightarrow> exec e c st = Inr st' \<Longrightarrow> I2 st'"
proof (cases c)
  case (AddItem n d u i)
  assume "I2 st" "exec e c st = Inr st'"
  with AddItem show ?thesis
    by (auto simp: addItem_def Let_def I2_def purchase_coupled_def split: if_splits)
next
  case (UpdateItem k n d u i)
  assume a: "I2 st" "exec e c st = Inr st'"
  with UpdateItem have k: "k < length (items st)"
    and eq: "items st' = (items st)[k := (items st ! k)\<lparr>name := n, description := d,
      url := u, imageUrl := i\<rparr>]"
    by (auto simp: updateItem_def validItemId_def Let_def split: if_splits)
  from a(1) k have "purchase_coupled (items st ! k)"
    by (simp add: I2_def list_all_length)
  then have "purchase_coupled ((items st ! k)\<lparr>name := n, description := d,
      url := u, imageUrl := i\<rparr>)"
    by (simp add: purchase_coupled_def)
  with a(1) show ?thesis
    unfolding I2_def eq list_all_iff by (auto dest: set_update_subset_insert[THEN subsetD])
next
  case (RemoveItem k)
  assume a: "I2 st" "exec e c st = Inr st'"
  with RemoveItem have k: "k < length (items st)"
    and eq: "items st' = (items st)[k := (items st ! k)\<lparr>isDeleted := True\<rparr>]"
    by (auto simp: removeItem_def validItemId_def split: if_splits)
  from a(1) k have "purchase_coupled (items st ! k)"
    by (simp add: I2_def list_all_length)
  then have "purchase_coupled ((items st ! k)\<lparr>isDeleted := True\<rparr>)"
    by (simp add: purchase_coupled_def)
  with a(1) show ?thesis
    unfolding I2_def eq list_all_iff by (auto dest: set_update_subset_insert[THEN subsetD])
next
  case (MarkAsPurchased k n)
  assume a: "I2 st" "exec e c st = Inr st'" and s: "stamped (e, c)"
  with MarkAsPurchased have k: "k < length (items st)" and n: "n \<noteq> []"
    and eq: "items st' = (items st)[k := (items st ! k)\<lparr>isPurchased := True,
      encryptedPurchaserName := n, purchasedAt := block_timestamp e\<rparr>]"
    by (auto simp: markAsPurchased_def validItemId_def Let_def split: if_splits)
  from s MarkAsPurchased n have "purchase_coupled ((items st ! k)\<lparr>isPurchased := True,
      encryptedPurchaserName := n, purchasedAt := block_timestamp e\<rparr>)"
    by (simp add: purchase_coupled_def)
  with a(1) show ?thesis
    unfolding I2_def eq list_all_iff by (auto dest: set_update_subset_insert[THEN subsetD])
next
  case (ResetItem k)
  assume a: "I2 st" "exec e c st = Inr st'"
  with ResetItem have
    eq: "items st' = (items st)[k := (items st ! k)\<lparr>isPurchased := False,
      encryptedPurchaserName := [], purchasedAt := 0\<rparr>]"
    by (auto simp: resetItem_def validItemId_def Let_def split: if_splits)
  have "purchase_coupled ((items st ! k)\<lparr>isPurchased := False,
      encryptedPurchaserName := [], purchasedAt := 0\<rparr>)"
    by (simp add: purchase_coupled_def)
  with a(1) show ?thesis
    unfolding I2_def eq list_all_iff by (auto dest: set_update_subset_insert[THEN subsetD])
next
  case (TransferOwnership a)
  assume "I2 st" "exec e c st = Inr st'"
  with TransferOwnership show ?thesis
    by (auto simp: transferOwnership_def I2_def split: if_splits)
qed

lemma apply_tx_I2: "I2 st \<Longrightarrow> stamped tx \<Longrightarrow> I2 (apply_tx st tx)"
  by (cases tx) (auto simp: apply_tx_def split: sum.splits dest: exec_I2)

lemma run_I2: "I2 st \<Longrightarrow> list_all stamped txs \<Longrightarrow> I2 (run st txs)"
proof (induction txs arbitrary: st)
  case Nil
  then show ?case by (simp add: run_Nil)
next
  case (Cons tx txs)
  then show ?case by (simp add: run_Cons apply_tx_I2)
qed

lemma positive_stamped: "0 < block_timestamp (fst tx) \<Longrightarrow> stamped tx"
  by (cases tx, cases "snd tx") simp_all

lemma reachable_pos_I2: "reachable_pos st \<Longrightarrow> I2 st"
proof (induction rule: reachable_pos.induct)
  case (pos_init e)
  show ?case by (simp add: I2_def constructor_def)
next
  case (pos_step st tx)
  then show ?case by (simp add: apply_tx_I2 positive_stamped)
qed

lemma reachable_pos_run:
  "reachable_pos st \<Longrightarrow> list_all (\<lambda>tx. 0 < block_timestamp (fst tx)) txs
     \<Longrightarrow> reachable_pos (run st txs)"
proof (induction txs arbitrary: st)
  case Nil
  then show ?case by (simp add: run_Nil)
next
  case (Cons tx txs)
  then show ?case by (simp add: run_Cons pos_step)
qed

text \<open>
  Claim C5 (purchase-field coupling, I2). In every state the contract reaches on a
  chain, that is from its deployment through transactions in blocks with a positive
  timestamp, every item that is purchased has a non-empty encrypted purchaser name
  and a positive purchase time. The predicate holds at deployment and every
  operation of the contract preserves it, committed or reverted. After a successful
  \<^verbatim>\<open>resetItem\<close> the item, and after a successful \<^verbatim>\<open>addItem\<close> the new item, is not
  purchased, has the empty name and purchase time zero.
\<close>

theorem purchase_coupling:
  "(reachable_pos st \<and> i < length (items st) \<and> isPurchased (items st ! i) \<longrightarrow>
      encryptedPurchaserName (items st ! i) \<noteq> [] \<and> 0 < purchasedAt (items st ! i))
   \<and> (reachable_pos st \<longrightarrow> I2 st)
   \<and> I2 (constructor e0)
   \<and> (I2 st \<and> 0 < block_timestamp (fst tx) \<longrightarrow> I2 (apply_tx st tx))
   \<and> (I2 st \<and> 0 < block_timestamp e \<longrightarrow> (\<forall>st'. exec e c st = Inr st' \<longrightarrow> I2 st'))
   \<and> (\<forall>st'. resetItem e k st = Inr st' \<longrightarrow> cleared (items st' ! k))
   \<and> (\<forall>st'. addItem e n d u im st = Inr st' \<longrightarrow> cleared (items st' ! length (items st)))"
proof (intro conjI impI allI)
  show "I2 (constructor e0)"
    by (simp add: I2_def constructor_def)
  show "I2 st" if "reachable_pos st"
    using that by (rule reachable_pos_I2)
  show "I2 (apply_tx st tx)" if "I2 st \<and> 0 < block_timestamp (fst tx)"
    using that by (simp add: apply_tx_I2 positive_stamped)
  show "I2 st'" if "I2 st \<and> 0 < block_timestamp e" "exec e c st = Inr st'" for st'
    using that positive_stamped [of "(e, c)"] by (auto dest: exec_I2)
  show "cleared (items st' ! k)" if "resetItem e k st = Inr st'" for st'
    using that
    by (auto simp: resetItem_def validItemId_def Let_def cleared_def split: if_splits)
  show "cleared (items st' ! length (items st))" if "addItem e n d u im st = Inr st'" for st'
    using that by (auto simp: addItem_def Let_def cleared_def split: if_splits)
  assume a: "reachable_pos st \<and> i < length (items st) \<and> isPurchased (items st ! i)"
  then have "I2 st" by (simp add: reachable_pos_I2)
  with a have "purchase_coupled (items st ! i)"
    by (simp add: I2_def list_all_length)
  with a show "encryptedPurchaserName (items st ! i) \<noteq> []" "0 < purchasedAt (items st ! i)"
    by (simp_all add: purchase_coupled_def)
qed

lemma reachable_pos_first_purchased: "reachable_pos first_purchased"
proof -
  have "reachable_pos (constructor owner_env)" by (rule pos_init)
  then have "reachable_pos three_items"
    unfolding three_items_def by (rule reachable_pos_run) (simp add: owner_env_def)
  then show ?thesis
    unfolding first_purchased_def by (rule reachable_pos_run) (simp add: guest_env_def)
qed

lemma reachable_pos_history: "reachable_pos (run (constructor owner_env) purchase_history)"
  by (rule reachable_pos_run [OF pos_init])
    (simp add: purchase_history_def owner_env_def guest_env_def)

theorem purchase_coupling_witness:
  "reachable_pos (run (constructor owner_env) purchase_history)
   \<and> I2 (run (constructor owner_env) purchase_history)
   \<and> reachable_pos first_purchased
   \<and> 0 < length (items first_purchased)
   \<and> isPurchased (items first_purchased ! 0)
   \<and> encryptedPurchaserName (items first_purchased ! 0) \<noteq> []
   \<and> 0 < purchasedAt (items first_purchased ! 0)
   \<and> I2 first_purchased
   \<and> 0 < block_timestamp (fst (owner_env, ResetItem 0))
   \<and> I2 (apply_tx first_purchased (owner_env, ResetItem 0))
   \<and> exec guest_env (MarkAsPurchased 1 ''enc'') first_purchased =
       Inr (run first_purchased [(guest_env, MarkAsPurchased 1 ''enc'')])
   \<and> I2 (run first_purchased [(guest_env, MarkAsPurchased 1 ''enc'')])
   \<and> resetItem owner_env 0 first_purchased = Inr three_items
   \<and> cleared (items three_items ! 0)
   \<and> addItem owner_env ''Item 1'' ''Desc'' ''url'' ''img'' (constructor owner_env)
       = Inr \<lparr>owner = 1, items = [item_named ''Item 1'']\<rparr>
   \<and> cleared (items \<lparr>owner = 1, items = [item_named ''Item 1'']\<rparr> ! 0)"
proof -
  note a = reachable_pos_first_purchased
  have b: "0 < length (items first_purchased)" "isPurchased (items first_purchased ! 0)"
    by (simp_all add: first_purchased_eq)
  have c: "resetItem owner_env 0 first_purchased = Inr three_items"
    by (simp add: first_purchased_eq three_items_eq resetItem_def onlyOwner_def
        validItemId_def owner_env_def item_named_def)
  have d: "addItem owner_env ''Item 1'' ''Desc'' ''url'' ''img'' (constructor owner_env)
       = Inr \<lparr>owner = 1, items = [item_named ''Item 1'']\<rparr>"
    by (simp add: addItem_def onlyOwner_def constructor_def owner_env_def item_named_def)
  have e: "length (items (constructor owner_env)) = 0"
    by (simp add: constructor_def)
  have f: "0 < block_timestamp (fst (owner_env, ResetItem 0))" "0 < block_timestamp guest_env"
    by (simp_all add: owner_env_def guest_env_def)
  have g: "exec guest_env (MarkAsPurchased 1 ''enc'') first_purchased =
       Inr (run first_purchased [(guest_env, MarkAsPurchased 1 ''enc'')])"
    by (simp add: run_def apply_tx_def markAsPurchased_def validItemId_def
        first_purchased_eq item_named_def)
  from a b f g purchase_coupling [of first_purchased 0 owner_env "(owner_env, ResetItem 0)"
      guest_env "MarkAsPurchased 1 ''enc''"]
  have 1: "encryptedPurchaserName (items first_purchased ! 0) \<noteq> []
      \<and> 0 < purchasedAt (items first_purchased ! 0)
      \<and> I2 first_purchased
      \<and> I2 (apply_tx first_purchased (owner_env, ResetItem 0))
      \<and> I2 (run first_purchased [(guest_env, MarkAsPurchased 1 ''enc'')])"
    by blast
  from c purchase_coupling [of first_purchased 0 owner_env "(owner_env, ResetItem 0)"
      owner_env "MarkAsPurchased 1 ''enc''" 0]
  have 2: "cleared (items three_items ! 0)"
    by blast
  from d e purchase_coupling [of "constructor owner_env" 0 owner_env "(owner_env, ResetItem 0)"
      owner_env "MarkAsPurchased 1 ''enc''" 0 "''Item 1''" "''Desc''" "''url''" "''img''"]
  have 3: "cleared (items \<lparr>owner = 1, items = [item_named ''Item 1'']\<rparr> ! 0)"
    by simp
  from reachable_pos_history
    purchase_coupling [of "run (constructor owner_env) purchase_history"]
  have 4: "I2 (run (constructor owner_env) purchase_history)"
    by blast
  from a b c d f g 1 2 3 4 reachable_pos_history show ?thesis by blast
qed

section \<open>The retry policy\<close>

lemma retry_loop_unfold:
  "retry_loop fn n a =
     (if a < n
      then (case fn a of
              Inr v \<Rightarrow> (Returned v, [Call a])
            | Inl e \<Rightarrow>
                if isRateLimit e \<and> a \<noteq> n - 1
                then (fst (retry_loop fn n (Suc a)),
                      Call a # Backoff (2 ^ a * 1000) # snd (retry_loop fn n (Suc a)))
                else (Thrown e, [Call a]))
      else (ReturnedUndefined, []))"
  by (subst retry_loop.simps) (simp add: Let_def split: sum.splits del: retry_loop.simps)

text \<open>
  The loop from attempt \<open>a\<close>: when the attempts before \<open>k\<close> fail transiently and
  attempt \<open>k\<close> does not, or is the last one allowed, the loop ends with attempt \<open>k\<close>.
\<close>

lemma retry_loop_ends:
  "a \<le> k \<Longrightarrow> k < n \<Longrightarrow> (\<forall>j. a \<le> j \<and> j < k \<longrightarrow> transient_failure fn j)
     \<Longrightarrow> \<not> transient_failure fn k \<or> k = n - 1
     \<Longrightarrow> retry_loop fn n a = (attempt_result fn k, backoff_trace a k)"
proof (induction "k - a" arbitrary: a)
  case 0
  then have ak: "a = k" by simp
  from 0(3,5) show ?case
    unfolding ak
    by (subst retry_loop_unfold)
      (auto simp: transient_failure_def attempt_result_def backoff_trace_def
        split: sum.splits simp del: retry_loop.simps)
next
  case (Suc m)
  then have lt: "a < k" by simp
  with Suc.prems have tf: "transient_failure fn a" by simp
  then obtain e where e: "fn a = Inl e" "isRateLimit e"
    by (auto simp: transient_failure_def split: sum.splits)
  from lt Suc.prems(2) have ne: "a \<noteq> n - 1" by simp
  have rest: "retry_loop fn n (Suc a) = (attempt_result fn k, backoff_trace (Suc a) k)"
    using Suc.hyps(2) Suc.prems lt by (intro Suc.hyps(1)) auto
  have up: "[a..<k] = a # [Suc a..<k]"
    using lt by (simp add: upt_conv_Cons)
  from lt Suc.prems(2) e ne show ?case
    by (subst retry_loop_unfold)
      (simp add: rest backoff_trace_def up del: retry_loop.simps)
qed

text \<open>There always is such an attempt when at least one is allowed.\<close>

lemma last_attempt_exists:
  "0 < n \<Longrightarrow> \<exists>k<n. (\<forall>j<k. transient_failure fn j) \<and> (\<not> transient_failure fn k \<or> k = n - 1)"
proof (cases "\<exists>k<n. \<not> transient_failure fn k")
  case True
  define k where "k = (LEAST k. k < n \<and> \<not> transient_failure fn k)"
  from True have p: "k < n \<and> \<not> transient_failure fn k"
    unfolding k_def by (metis (mono_tags, lifting) LeastI)
  have "\<forall>j<k. transient_failure fn j"
  proof (intro allI impI)
    fix j assume j: "j < k"
    show "transient_failure fn j"
    proof (rule ccontr)
      assume "\<not> transient_failure fn j"
      with j p have "j < n \<and> \<not> transient_failure fn j" by simp
      then have "k \<le> j" unfolding k_def by (rule Least_le)
      with j show False by simp
    qed
  qed
  with p show ?thesis by blast
next
  case False
  assume "0 < n"
  with False show ?thesis
    by (intro exI[of _ "n - 1"]) auto
qed

lemma rate_limit_error_transient: "isRateLimit rate_limit_error"
  by (simp add: isRateLimit_def msg_includes_def rate_limit_error_def)

lemma rate_limit_error_catch:
  "purchase_catch rate_limit_error =
     Inr \<lparr>statusCode = 500, body = ErrorMessageBody ''Failed to process purchase''
       (Val ''server response 429 Too Many Requests'')\<rparr>"
  by (simp add: purchase_catch_def rate_limit_error_def)

lemma trim_Ann: "trim ''Ann'' = ''Ann''"
  by (simp add: trim_def is_ws_def)

text \<open>
  Claim C7 as the specification states it extends the retry policy to the purchase
  flow's read of the item and to its submission. \<^verbatim>\<open>handlePurchase\<close> calls
  \<^verbatim>\<open>contract.items\<close> and \<^verbatim>\<open>contract.markAsPurchased\<close> directly: when the first
  invocation is rate limited, the request ends with status 500 after that one
  invocation, although a second one would have succeeded.
\<close>

theorem retry_policy_counterexample:
  "isRateLimit rate_limit_error
   \<and> w_read flaky_read_world (JNum 0) 1 = Inr (item_named ''Item 1'')
   \<and> handler relayer_config flaky_read_world purchase_request =
       (\<lparr>statusCode = 500, body = ErrorMessageBody ''Failed to process purchase''
           (Val ''server response 429 Too Many Requests'')\<rparr>,
        [InitContract, PurchaseRead (JNum 0) 0])
   \<and> w_submit flaky_submit_world (JNum 0) ''ciphertext'' 1 = Inr ''0xabc''
   \<and> handler relayer_config flaky_submit_world purchase_request =
       (\<lparr>statusCode = 500, body = ErrorMessageBody ''Failed to process purchase''
           (Val ''server response 429 Too Many Requests'')\<rparr>,
        [InitContract, PurchaseRead (JNum 0) 0, Encrypt (Val ''04ab'') ''Ann'',
         Submit (JNum 0) ''ciphertext'' 0])"
  by (simp add: rate_limit_error_transient rate_limit_error_catch trim_Ann handler_def
      handlePurchase_def purchase_steps_def endsWith_def unconfigured_def relayer_config_def
      purchase_request_def flaky_read_world_def flaky_submit_world_def calm_world_def
      item_named_def)

text \<open>A purchase either makes no call at all, or it is the steps after validation.\<close>

lemma handlePurchase_cases:
  "snd (handlePurchase cfg w ev) = []
   \<or> (\<exists>pw v pn. ev_body ev = Body pw v (JStr pn)
        \<and> \<not> unconfigured (REGISTRY_PASSWORD cfg) \<and> truthy pw
        \<and> strict_eq pw (REGISTRY_PASSWORD cfg)
        \<and> v \<noteq> JUndefined \<and> v \<noteq> JNull \<and> trim pn \<noteq> []
        \<and> handlePurchase cfg w ev = purchase_steps cfg w v pn)"
proof (cases "ev_body ev")
  case (Unparseable e)
  then show ?thesis by (simp add: handlePurchase_def)
next
  case (Body pw v nm)
  show ?thesis
  proof (cases nm)
    case (JStr pn)
    with Body show ?thesis by (simp add: handlePurchase_def Let_def)
  qed (use Body in \<open>simp_all add: handlePurchase_def Let_def\<close>)
qed

text \<open>Every purchase makes each of its two calls to the registry at most once.\<close>

lemma purchase_steps_shapes:
  "\<exists>pk n c nm pv h.
     snd (purchase_steps cfg w v pn) = [InitContract]
     \<or> snd (purchase_steps cfg w v pn) = [InitContract, PurchaseRead v 0]
     \<or> snd (purchase_steps cfg w v pn) = [InitContract, PurchaseRead v 0, Encrypt pk n]
     \<or> snd (purchase_steps cfg w v pn) =
         [InitContract, PurchaseRead v 0, Encrypt pk n, Submit v c 0]
     \<or> snd (purchase_steps cfg w v pn) =
         [InitContract, PurchaseRead v 0, Encrypt pk n, Submit v c 0, Wait]
     \<or> snd (purchase_steps cfg w v pn) =
         [InitContract, PurchaseRead v 0, Encrypt pk n, Submit v c 0, Wait,
          Notify v nm pv h]"
  unfolding purchase_steps_def
  by (simp split: option.split sum.split)

lemma purchase_steps_calls:
  "length (filter is_purchase_read (snd (purchase_steps cfg w v pn))) \<le> 1
   \<and> length (filter is_submit (snd (purchase_steps cfg w v pn))) \<le> 1
   \<and> list_all (\<lambda>x. store_call_number x = None \<or> store_call_number x = Some 0)
       (snd (purchase_steps cfg w v pn))"
  unfolding purchase_steps_def
  by (simp split: option.split sum.split)

lemma purchase_steps_read_failure:
  "PurchaseRead v' k \<in> set (snd (purchase_steps cfg w v pn)) \<Longrightarrow> w_read w v' 0 = Inl e
     \<Longrightarrow> purchase_steps cfg w v pn = (purchase_catch e, [InitContract, PurchaseRead v' 0])"
  unfolding purchase_steps_def
  by (auto split: option.splits sum.splits if_splits)

lemma purchase_steps_submit_failure:
  "Submit v' c k \<in> set (snd (purchase_steps cfg w v pn)) \<Longrightarrow> w_submit w v' c 0 = Inl e
     \<Longrightarrow> fst (purchase_steps cfg w v pn) = purchase_catch e
         \<and> last (snd (purchase_steps cfg w v pn)) = Submit v' c 0"
  unfolding purchase_steps_def
  by (auto split: option.splits sum.splits if_splits)

lemma purchase_calls:
  "length (filter is_purchase_read (snd (handlePurchase cfg w ev))) \<le> 1
   \<and> length (filter is_submit (snd (handlePurchase cfg w ev))) \<le> 1
   \<and> list_all (\<lambda>x. store_call_number x = None \<or> store_call_number x = Some 0)
       (snd (handlePurchase cfg w ev))"
  using handlePurchase_cases [of cfg w ev] purchase_steps_calls [of cfg w]
  by (elim disjE exE conjE) simp_all

lemma purchase_read_failure:
  "PurchaseRead v k \<in> set (snd (handlePurchase cfg w ev)) \<Longrightarrow> w_read w v 0 = Inl e
     \<Longrightarrow> handlePurchase cfg w ev = (purchase_catch e, [InitContract, PurchaseRead v 0])"
  using handlePurchase_cases [of cfg w ev]
  by (elim disjE exE conjE) (simp_all add: purchase_steps_read_failure)

lemma purchase_submit_failure:
  "Submit v c k \<in> set (snd (handlePurchase cfg w ev)) \<Longrightarrow> w_submit w v c 0 = Inl e
     \<Longrightarrow> fst (handlePurchase cfg w ev) = purchase_catch e
         \<and> last (snd (handlePurchase cfg w ev)) = Submit v c 0"
  using handlePurchase_cases [of cfg w ev]
  by (elim disjE exE conjE) (simp_all add: purchase_steps_submit_failure)

text \<open>
  Claim C7, amended (retry policy). \<^verbatim>\<open>retryWithBackoff\<close> with its default of three
  attempts: the attempts are made in order; an attempt that fails with a failure
  classified as transient (code \<^verbatim>\<open>CALL_EXCEPTION\<close>, or a message containing "rate limit"
  or "429") is followed, unless it is the third, by a sleep of 1000 ms doubled once
  per earlier attempt and by the next attempt; the first attempt that returns ends
  the call with its value; the first attempt that fails otherwise, and the third
  attempt whatever its failure, ends the call by throwing that failure at once. So
  the call makes one, two or three attempts and sleeps 1000 ms and 2000 ms at most.
  The policy is that of the listing's reads only. The purchase flow calls the
  registry directly: it reads the item at most once and submits at most once, and a
  failure of either call, transient or not, goes straight to the error response.
\<close>

theorem retry_policy:
  "(\<exists>k<3. (\<forall>j<k. transient_failure fn j) \<and> (\<not> transient_failure fn k \<or> k = 2)
       \<and> retryWithBackoff fn default_maxRetries = (attempt_result fn k, backoff_trace 0 k))
   \<and> (k < 3 \<and> (\<forall>j<k. transient_failure fn j) \<and> (\<not> transient_failure fn k \<or> k = 2) \<longrightarrow>
        retryWithBackoff fn default_maxRetries = (attempt_result fn k, backoff_trace 0 k))
   \<and> backoff_trace 0 0 = [Call 0]
   \<and> backoff_trace 0 1 = [Call 0, Backoff 1000, Call 1]
   \<and> backoff_trace 0 2 = [Call 0, Backoff 1000, Call 1, Backoff 2000, Call 2]
   \<and> length (filter is_purchase_read (snd (handlePurchase cfg w ev))) \<le> 1
   \<and> length (filter is_submit (snd (handlePurchase cfg w ev))) \<le> 1
   \<and> list_all (\<lambda>x. store_call_number x = None \<or> store_call_number x = Some 0)
       (snd (handlePurchase cfg w ev))
   \<and> (PurchaseRead v i \<in> set (snd (handlePurchase cfg w ev)) \<and> w_read w v 0 = Inl e \<longrightarrow>
        handlePurchase cfg w ev = (purchase_catch e, [InitContract, PurchaseRead v 0]))
   \<and> (Submit v c i \<in> set (snd (handlePurchase cfg w ev)) \<and> w_submit w v c 0 = Inl e \<longrightarrow>
        fst (handlePurchase cfg w ev) = purchase_catch e
        \<and> last (snd (handlePurchase cfg w ev)) = Submit v c 0)"
proof -
  have ends: "retryWithBackoff fn default_maxRetries = (attempt_result fn k, backoff_trace 0 k)"
    if "k < 3" "\<forall>j<k. transient_failure fn j" "\<not> transient_failure fn k \<or> k = 2" for k
    unfolding retryWithBackoff_def default_maxRetries_def
    using that by (intro retry_loop_ends) auto
  have "\<exists>k<3. (\<forall>j<k. transient_failure fn j) \<and> (\<not> transient_failure fn k \<or> k = 3 - 1)"
    by (rule last_attempt_exists) simp
  then obtain k0 where k0: "k0 < 3" "\<forall>j<k0. transient_failure fn j"
    "\<not> transient_failure fn k0 \<or> k0 = 2"
    by auto
  then have 1: "\<exists>k<3. (\<forall>j<k. transient_failure fn j) \<and> (\<not> transient_failure fn k \<or> k = 2)
       \<and> retryWithBackoff fn default_maxRetries = (attempt_result fn k, backoff_trace 0 k)"
    using ends [of k0] by blast
  have 2: "k < 3 \<and> (\<forall>j<k. transient_failure fn j) \<and> (\<not> transient_failure fn k \<or> k = 2) \<longrightarrow>
        retryWithBackoff fn default_maxRetries = (attempt_result fn k, backoff_trace 0 k)"
    using ends [of k] by blast
  have 3: "backoff_trace 0 0 = [Call 0]"
    "backoff_trace 0 1 = [Call 0, Backoff 1000, Call 1]"
    "backoff_trace 0 2 = [Call 0, Backoff 1000, Call 1, Backoff 2000, Call 2]"
    by (simp_all add: backoff_trace_def upt_rec [of 0] upt_rec [of 1] upt_rec [of "Suc 0"])
  note 4 = purchase_calls [of cfg w ev]
  have 5: "PurchaseRead v i \<in> set (snd (handlePurchase cfg w ev)) \<and> w_read w v 0 = Inl e \<longrightarrow>
        handlePurchase cfg w ev = (purchase_catch e, [InitContract, PurchaseRead v 0])"
    using purchase_read_failure [of v i cfg w ev e] by blast
  have 6: "Submit v c i \<in> set (snd (handlePurchase cfg w ev)) \<and> w_submit w v c 0 = Inl e \<longrightarrow>
        fst (handlePurchase cfg w ev) = purchase_catch e
        \<and> last (snd (handlePurchase cfg w ev)) = Submit v c 0"
    using purchase_submit_failure [of v c i cfg w ev e] by blast
  from 1 2 3 4 5 6 show ?thesis by blast
qed

lemma flaky_read_purchase:
  "handlePurchase relayer_config flaky_read_world purchase_request =
     (purchase_catch rate_limit_error, [InitContract, PurchaseRead (JNum 0) 0])"
  by (simp add: trim_Ann handlePurchase_def purchase_steps_def unconfigured_def
      relayer_config_def purchase_request_def flaky_read_world_def calm_world_def)

lemma flaky_submit_purchase:
  "snd (handlePurchase relayer_config flaky_submit_world purchase_request) =
     [InitContract, PurchaseRead (JNum 0) 0, Encrypt (Val ''04ab'') ''Ann'',
      Submit (JNum 0) ''ciphertext'' 0]"
  by (simp add: trim_Ann handlePurchase_def purchase_steps_def unconfigured_def
      relayer_config_def purchase_request_def flaky_submit_world_def calm_world_def
      item_named_def)

theorem retry_policy_witness:
  "transient_failure twice_limited 0 \<and> transient_failure twice_limited 1
   \<and> retryWithBackoff twice_limited default_maxRetries =
       (Returned (item_named ''Item 1''),
        [Call 0, Backoff 1000, Call 1, Backoff 2000, Call 2])
   \<and> PurchaseRead (JNum 0) 0
       \<in> set (snd (handlePurchase relayer_config flaky_read_world purchase_request))
   \<and> w_read flaky_read_world (JNum 0) 0 = Inl rate_limit_error
   \<and> fst (handlePurchase relayer_config flaky_read_world purchase_request) =
       purchase_catch rate_limit_error
   \<and> length (filter is_purchase_read
         (snd (handlePurchase relayer_config flaky_read_world purchase_request))) \<le> 1
   \<and> Submit (JNum 0) ''ciphertext'' 0
       \<in> set (snd (handlePurchase relayer_config flaky_submit_world purchase_request))
   \<and> w_submit flaky_submit_world (JNum 0) ''ciphertext'' 0 = Inl rate_limit_error
   \<and> fst (handlePurchase relayer_config flaky_submit_world purchase_request) =
       purchase_catch rate_limit_error"
proof -
  have a: "transient_failure twice_limited 0 \<and> transient_failure twice_limited 1"
    by (simp add: transient_failure_def twice_limited_def rate_limit_error_transient)
  then have b: "\<forall>j<2. transient_failure twice_limited j"
    by (auto simp: less_Suc_eq numeral_2_eq_2)
  have c: "attempt_result twice_limited 2 = Returned (item_named ''Item 1'')"
    by (simp add: attempt_result_def twice_limited_def)
  have d: "PurchaseRead (JNum 0) 0
       \<in> set (snd (handlePurchase relayer_config flaky_read_world purchase_request))"
    by (simp add: flaky_read_purchase)
  have e: "w_read flaky_read_world (JNum 0) 0 = Inl rate_limit_error"
    by (simp add: flaky_read_world_def)
  have f: "Submit (JNum 0) ''ciphertext'' 0
       \<in> set (snd (handlePurchase relayer_config flaky_submit_world purchase_request))"
    by (simp add: flaky_submit_purchase)
  have g: "w_submit flaky_submit_world (JNum 0) ''ciphertext'' 0 = Inl rate_limit_error"
    by (simp add: flaky_submit_world_def)
  note t = retry_policy [of twice_limited 2 relayer_config flaky_read_world purchase_request
      "JNum 0" 0 rate_limit_error]
  from t b c have 1: "retryWithBackoff twice_limited default_maxRetries =
       (Returned (item_named ''Item 1''),
        [Call 0, Backoff 1000, Call 1, Backoff 2000, Call 2])"
    by simp
  from t d e have 2: "fst (handlePurchase relayer_config flaky_read_world purchase_request) =
       purchase_catch rate_limit_error"
    by simp
  from t have 3: "length (filter is_purchase_read
         (snd (handlePurchase relayer_config flaky_read_world purchase_request))) \<le> 1"
    by blast
  from f g retry_policy [of twice_limited 2 relayer_config flaky_submit_world purchase_request
      "JNum 0" 0 rate_limit_error "''ciphertext''"]
  have 4: "fst (handlePurchase relayer_config flaky_submit_world purchase_request) =
       purchase_catch rate_limit_error"
    by simp
  from a 1 d e 2 3 f g 4 show ?thesis by blast
qed

section \<open>The purchase handler\<close>

lemma handler_purchase:
  "purchase_route ev \<Longrightarrow>
   handler cfg w ev =
     (case handlePurchase cfg w ev of
        (Inr r, tr) \<Rightarrow> (r, tr)
      | (Inl e, tr) \<Rightarrow>
          (\<lparr>statusCode = 500,
            body = ErrorMessageBody ''Internal server error'' (err_message e)\<rparr>, tr))"
  by (simp add: handler_def purchase_route_def)

lemma handler_purchase_trace:
  "purchase_route ev \<Longrightarrow> snd (handler cfg w ev) = snd (handlePurchase cfg w ev)"
  by (simp add: handler_purchase split: prod.splits sum.splits)

text \<open>
  Claim C9 (password gating). For every request routed to the purchase handler whose
  body parses: when the shared secret is configured and the password of the request
  is not that secret (it is another string, is missing, or is not a string), the
  response is 401 "Invalid password"; when the secret is not configured, the response
  is 500 "Server configuration error"; in both cases, and also when the body does not
  parse, nothing is called: neither the contract is initialised nor is there a read,
  an encryption, a submission or a notification.
\<close>

theorem password_gating:
  "purchase_route ev \<longrightarrow>
     (ev_body ev = Body pw v nm \<and> \<not> unconfigured (REGISTRY_PASSWORD cfg)
        \<and> \<not> credential_matches pw cfg \<longrightarrow>
      handler cfg w ev = (\<lparr>statusCode = 401, body = ErrorBody ''Invalid password''\<rparr>, []))
     \<and> (ev_body ev = Body pw v nm \<and> unconfigured (REGISTRY_PASSWORD cfg) \<longrightarrow>
      handler cfg w ev =
        (\<lparr>statusCode = 500, body = ErrorBody ''Server configuration error''\<rparr>, []))
     \<and> (ev_body ev = Unparseable e \<longrightarrow> snd (handler cfg w ev) = [])"
proof (intro impI conjI)
  assume r: "purchase_route ev"
  {
    assume a: "ev_body ev = Body pw v nm \<and> \<not> unconfigured (REGISTRY_PASSWORD cfg)
        \<and> \<not> credential_matches pw cfg"
    then have "\<not> truthy pw \<or> \<not> strict_eq pw (REGISTRY_PASSWORD cfg)"
      by (cases pw; cases "REGISTRY_PASSWORD cfg") (auto simp: credential_matches_def)
    with a have "handlePurchase cfg w ev =
        (Inr \<lparr>statusCode = 401, body = ErrorBody ''Invalid password''\<rparr>, [])"
      by (auto simp: handlePurchase_def Let_def)
    with r show "handler cfg w ev =
        (\<lparr>statusCode = 401, body = ErrorBody ''Invalid password''\<rparr>, [])"
      by (simp add: handler_purchase)
  }
  {
    assume "ev_body ev = Body pw v nm \<and> unconfigured (REGISTRY_PASSWORD cfg)"
    then have "handlePurchase cfg w ev =
        (Inr \<lparr>statusCode = 500, body = ErrorBody ''Server configuration error''\<rparr>, [])"
      by (simp add: handlePurchase_def Let_def)
    with r show "handler cfg w ev =
        (\<lparr>statusCode = 500, body = ErrorBody ''Server configuration error''\<rparr>, [])"
      by (simp add: handler_purchase)
  }
  {
    assume "ev_body ev = Unparseable e"
    then have "snd (handlePurchase cfg w ev) = []"
      by (simp add: handlePurchase_def)
    with r show "snd (handler cfg w ev) = []"
      by (simp add: handler_purchase_trace)
  }
qed

text \<open>Scenario D of the specification, through the theorem.\<close>

theorem password_gating_witness:
  "purchase_route wrong_password_request
   \<and> \<not> unconfigured (REGISTRY_PASSWORD relayer_config)
   \<and> \<not> credential_matches (JStr ''guess'') relayer_config
   \<and> handler relayer_config calm_world wrong_password_request =
       (\<lparr>statusCode = 401, body = ErrorBody ''Invalid password''\<rparr>, [])
   \<and> purchase_route no_password_request
   \<and> \<not> credential_matches JUndefined relayer_config
   \<and> handler relayer_config calm_world no_password_request =
       (\<lparr>statusCode = 401, body = ErrorBody ''Invalid password''\<rparr>, [])
   \<and> unconfigured (REGISTRY_PASSWORD no_secret_config)
   \<and> handler no_secret_config calm_world wrong_password_request =
       (\<lparr>statusCode = 500, body = ErrorBody ''Server configuration error''\<rparr>, [])
   \<and> purchase_route unparseable_request
   \<and> snd (handler relayer_config calm_world unparseable_request) = []"
proof -
  have a: "purchase_route wrong_password_request" "purchase_route no_password_request"
    "purchase_route unparseable_request"
    by (simp_all add: purchase_route_def endsWith_def wrong_password_request_def
        no_password_request_def unparseable_request_def)
  have b: "\<not> unconfigured (REGISTRY_PASSWORD relayer_config)"
    "unconfigured (REGISTRY_PASSWORD no_secret_config)"
    by (simp_all add: unconfigured_def relayer_config_def no_secret_config_def)
  have c: "\<not> credential_matches (JStr ''guess'') relayer_config"
    "\<not> credential_matches JUndefined relayer_config"
    by (simp_all add: credential_matches_def relayer_config_def)
  have d: "ev_body wrong_password_request = Body (JStr ''guess'') (JNum 0) (JStr ''Ann'')"
    "ev_body no_password_request = Body JUndefined (JNum 0) (JStr ''Ann'')"
    "ev_body unparseable_request = Unparseable (Error ''Unexpected end of JSON input'')"
    by (simp_all add: wrong_password_request_def no_password_request_def
        unparseable_request_def)
  from a b c d
    password_gating [of wrong_password_request "JStr ''guess''" "JNum 0" "JStr ''Ann''"
      relayer_config calm_world]
  have 1: "handler relayer_config calm_world wrong_password_request =
       (\<lparr>statusCode = 401, body = ErrorBody ''Invalid password''\<rparr>, [])"
    by simp
  from a b c d
    password_gating [of no_password_request JUndefined "JNum 0" "JStr ''Ann''"
      relayer_config calm_world]
  have 2: "handler relayer_config calm_world no_password_request =
       (\<lparr>statusCode = 401, body = ErrorBody ''Invalid password''\<rparr>, [])"
    by simp
  from a b c d
    password_gating [of wrong_password_request "JStr ''guess''" "JNum 0" "JStr ''Ann''"
      no_secret_config calm_world]
  have 3: "handler no_secret_config calm_world wrong_password_request =
       (\<lparr>statusCode = 500, body = ErrorBody ''Server configuration error''\<rparr>, [])"
    by simp
  from a d
    password_gating [of unparseable_request _ _ _ relayer_config calm_world
      "Error ''Unexpected end of JSON input''"]
  have 4: "snd (handler relayer_config calm_world unparseable_request) = []"
    by simp
  from a b c 1 2 3 4 show ?thesis by simp
qed

section \<open>The mapping of submission failures\<close>

lemma str_includes_sublist: "str_includes s sub \<longleftrightarrow> sublist sub s"
  by (induction s) (simp_all add: sublist_Cons_right)

lemma str_includes_infix: "str_includes (pre @ sub @ post) sub"
  by (simp add: str_includes_sublist)

lemma str_includes_trans:
  "str_includes s t \<Longrightarrow> str_includes t u \<Longrightarrow> str_includes s u"
  unfolding str_includes_sublist by (rule sublist_order.order.trans)

lemma already_purchased_reason:
  "str_includes (pre @ revert_reason AlreadyPurchased @ post) ''already purchased''"
proof -
  have "str_includes (revert_reason AlreadyPurchased) ''already purchased''"
    using str_includes_infix [of "''Item ''" "''already purchased''" "[]"] by simp
  with str_includes_infix show ?thesis by (rule str_includes_trans)
qed

text \<open>
  What the \<^verbatim>\<open>catch\<close> block is written for: an error whose message carries the
  contract's reason "Item already purchased" becomes 409.
\<close>

lemma catch_already_purchased:
  "err_message e = Val (pre @ revert_reason AlreadyPurchased @ post) \<Longrightarrow>
   purchase_catch e = Inr \<lparr>statusCode = 409, body = ErrorBody ''Item already purchased''\<rparr>"
  by (simp only: purchase_catch_def js.case already_purchased_reason if_True)

lemma revert_error_message:
  "err_message (revert_error err) =
     Val ((''execution reverted: '' @ [CHR 0x22]) @ revert_reason err @ [CHR 0x22])"
  by (simp add: revert_error_def)

lemma removed_error_catch:
  "purchase_catch (revert_error ItemRemoved) =
     Inr \<lparr>statusCode = 500, body = ErrorMessageBody ''Failed to process purchase''
       (err_message (revert_error ItemRemoved))\<rparr>"
  by (simp add: purchase_catch_def revert_error_def)

lemma mined_revert_catch:
  "purchase_catch mined_revert_error =
     Inr \<lparr>statusCode = 500, body = ErrorMessageBody ''Failed to process purchase''
       (Val ''transaction execution reverted'')\<rparr>"
  by (simp add: purchase_catch_def mined_revert_error_def)

lemma raced_purchase:
  "handlePurchase relayer_config raced_world purchase_request =
     (purchase_catch (revert_error AlreadyPurchased),
      [InitContract, PurchaseRead (JNum 0) 0, Encrypt (Val ''04ab'') ''Ann'',
       Submit (JNum 0) ''ciphertext'' 0])"
  by (simp add: trim_Ann handlePurchase_def purchase_steps_def unconfigured_def
      relayer_config_def purchase_request_def raced_world_def calm_world_def item_named_def)

lemma lost_race_purchase:
  "handlePurchase relayer_config lost_race_world purchase_request =
     (purchase_catch mined_revert_error,
      [InitContract, PurchaseRead (JNum 0) 0, Encrypt (Val ''04ab'') ''Ann'',
       Submit (JNum 0) ''ciphertext'' 0, Wait])"
  by (simp add: trim_Ann handlePurchase_def purchase_steps_def unconfigured_def
      relayer_config_def purchase_request_def lost_race_world_def calm_world_def
      item_named_def)

lemma removed_purchase:
  "handlePurchase relayer_config removed_world removed_request =
     (purchase_catch (revert_error ItemRemoved),
      [InitContract, PurchaseRead (JNum 1) 0, Encrypt (Val ''04ab'') ''Ann'',
       Submit (JNum 1) ''ciphertext'' 0])"
  by (simp add: trim_Ann handlePurchase_def purchase_steps_def unconfigured_def
      relayer_config_def removed_request_def removed_world_def calm_world_def
      middle_removed_eq item_named_def)

text \<open>
  Claim C8 (submission-time conflict mapping) against the code. The claim says that
  a purchase which the contract rejects at submission time, after the relayer's check
  of the item has passed, is answered with 409 and never with 500. The \<^verbatim>\<open>catch\<close>
  block of \<^verbatim>\<open>handlePurchase\<close> tries to do so by looking for "already purchased" in the
  message of the error, and it succeeds when the revert comes back from the call of
  \<^verbatim>\<open>markAsPurchased\<close> with its reason. It fails in two cases. When the item is bought
  by someone else after the transaction has been sent, the contract rejects the
  purchase with "Item already purchased" when the transaction is mined, the error
  comes from \<^verbatim>\<open>tx.wait()\<close> in the same \<^verbatim>\<open>try\<close> without the reason, and the answer is
  500. When the item has been removed, which the relayer's check does not look at,
  the contract rejects with "Item has been removed", and the answer is 500.
\<close>

theorem submission_conflict_divergence:
  "\<not> isPurchased (item_named ''Item 1'')
   \<and> w_read raced_world (JNum 0) 0 = Inr (item_named ''Item 1'')
   \<and> w_read lost_race_world (JNum 0) 0 = Inr (item_named ''Item 1'')
   \<and> markAsPurchased guest_env 0 ''ciphertext'' first_purchased = Inl AlreadyPurchased
   \<and> w_submit raced_world (JNum 0) ''ciphertext'' 0 = Inl (revert_error AlreadyPurchased)
   \<and> handler relayer_config raced_world purchase_request =
       (\<lparr>statusCode = 409, body = ErrorBody ''Item already purchased''\<rparr>,
        [InitContract, PurchaseRead (JNum 0) 0, Encrypt (Val ''04ab'') ''Ann'',
         Submit (JNum 0) ''ciphertext'' 0])
   \<and> w_submit lost_race_world (JNum 0) ''ciphertext'' 0 = Inr ''0xabc''
   \<and> w_wait lost_race_world = Inl mined_revert_error
   \<and> handler relayer_config lost_race_world purchase_request =
       (\<lparr>statusCode = 500, body = ErrorMessageBody ''Failed to process purchase''
           (Val ''transaction execution reverted'')\<rparr>,
        [InitContract, PurchaseRead (JNum 0) 0, Encrypt (Val ''04ab'') ''Ann'',
         Submit (JNum 0) ''ciphertext'' 0, Wait])
   \<and> \<not> isPurchased (items middle_removed ! 1)
   \<and> w_read removed_world (JNum 1) 0 = Inr (items middle_removed ! 1)
   \<and> markAsPurchased guest_env 1 ''ciphertext'' middle_removed = Inl ItemRemoved
   \<and> w_submit removed_world (JNum 1) ''ciphertext'' 0 = Inl (revert_error ItemRemoved)
   \<and> handler relayer_config removed_world removed_request =
       (\<lparr>statusCode = 500, body = ErrorMessageBody ''Failed to process purchase''
           (err_message (revert_error ItemRemoved))\<rparr>,
        [InitContract, PurchaseRead (JNum 1) 0, Encrypt (Val ''04ab'') ''Ann'',
         Submit (JNum 1) ''ciphertext'' 0])"
proof -
  have r: "purchase_route purchase_request" "purchase_route removed_request"
    by (simp_all add: purchase_route_def endsWith_def purchase_request_def
        removed_request_def)
  have a: "markAsPurchased guest_env 0 ''ciphertext'' first_purchased = Inl AlreadyPurchased"
    "markAsPurchased guest_env 1 ''ciphertext'' middle_removed = Inl ItemRemoved"
    by (simp_all add: markAsPurchased_def validItemId_def first_purchased_eq
        middle_removed_eq item_named_def)
  have b: "\<not> isPurchased (item_named ''Item 1'')"
    "\<not> isPurchased (items middle_removed ! 1)"
    "w_read raced_world (JNum 0) 0 = Inr (item_named ''Item 1'')"
    "w_read lost_race_world (JNum 0) 0 = Inr (item_named ''Item 1'')"
    "w_read removed_world (JNum 1) 0 = Inr (items middle_removed ! 1)"
    by (simp_all add: item_named_def raced_world_def lost_race_world_def removed_world_def
        calm_world_def middle_removed_eq)
  have c: "w_submit raced_world (JNum 0) ''ciphertext'' 0 = Inl (revert_error AlreadyPurchased)"
    "w_submit lost_race_world (JNum 0) ''ciphertext'' 0 = Inr ''0xabc''"
    "w_wait lost_race_world = Inl mined_revert_error"
    "w_submit removed_world (JNum 1) ''ciphertext'' 0 = Inl (revert_error ItemRemoved)"
    by (simp_all add: raced_world_def lost_race_world_def removed_world_def calm_world_def)
  have d: "purchase_catch (revert_error AlreadyPurchased) =
      Inr \<lparr>statusCode = 409, body = ErrorBody ''Item already purchased''\<rparr>"
    by (rule catch_already_purchased) (rule revert_error_message)
  have 1: "handler relayer_config raced_world purchase_request =
       (\<lparr>statusCode = 409, body = ErrorBody ''Item already purchased''\<rparr>,
        [InitContract, PurchaseRead (JNum 0) 0, Encrypt (Val ''04ab'') ''Ann'',
         Submit (JNum 0) ''ciphertext'' 0])"
    using r by (simp add: handler_purchase raced_purchase d)
  have 2: "handler relayer_config lost_race_world purchase_request =
       (\<lparr>statusCode = 500, body = ErrorMessageBody ''Failed to process purchase''
           (Val ''transaction execution reverted'')\<rparr>,
        [InitContract, PurchaseRead (JNum 0) 0, Encrypt (Val ''04ab'') ''Ann'',
         Submit (JNum 0) ''ciphertext'' 0, Wait])"
    using r by (simp add: handler_purchase lost_race_purchase mined_revert_catch)
  have 3: "handler relayer_config removed_world removed_request =
       (\<lparr>statusCode = 500, body = ErrorMessageBody ''Failed to process purchase''
           (err_message (revert_error ItemRemoved))\<rparr>,
        [InitContract, PurchaseRead (JNum 1) 0, Encrypt (Val ''04ab'') ''Ann'',
         Submit (JNum 1) ''ciphertext'' 0])"
    using r by (simp add: handler_purchase removed_purchase removed_error_catch)
  from a b c 1 2 3 show ?thesis by simp
qed

section \<open>The listing\<close>

lemma items_loop_unfold:
  "items_loop w i acc tr =
     (if i < 1024
      then (if end_of_range w i then (acc, tr @ read_trace w i)
            else items_loop w (Suc i) (acc @ [listing_entry w i]) (tr @ read_trace w i))
      else (acc, tr))"
  by (subst items_loop.simps)
    (simp add: Let_def read_result_def end_of_range_def listing_entry_def read_trace_def
      split: outcome.splits del: items_loop.simps)

text \<open>The events of the loop from index \<open>i\<close> on.\<close>

lemma scanned_unfold:
  "scanned w i =
     (if i < 1024 then (if end_of_range w i then [] else i # scanned w (Suc i)) else [])"
  by (simp add: scanned_def upt_conv_Cons)

lemma items_loop_scanned:
  "items_loop w i acc tr =
     (acc @ map (listing_entry w) (scanned w i),
      tr @ concat (map (read_trace w) (scanned w i))
         @ (if i + length (scanned w i) < 1024
            then read_trace w (i + length (scanned w i)) else []))"
proof (induction w i acc tr rule: items_loop.induct)
  case (1 w i acc tr)
  show ?case
  proof (cases "i < 1024")
    case False
    then show ?thesis
      by (subst items_loop_unfold, subst (1 2 3 4) scanned_unfold)
        (simp del: items_loop.simps)
  next
    case lt: True
    show ?thesis
    proof (cases "end_of_range w i")
      case True
      with lt show ?thesis
        by (subst items_loop_unfold, subst (1 2 3 4) scanned_unfold)
          (simp del: items_loop.simps)
    next
      case False
      let ?r = "retryWithBackoff (w_items w i) default_maxRetries"
      have ih: "items_loop w (Suc i) (acc @ [listing_entry w i]) (tr @ read_trace w i) =
          ((acc @ [listing_entry w i]) @ map (listing_entry w) (scanned w (Suc i)),
           (tr @ read_trace w i) @ concat (map (read_trace w) (scanned w (Suc i)))
             @ (if Suc i + length (scanned w (Suc i)) < 1024
                then read_trace w (Suc i + length (scanned w (Suc i))) else []))"
      proof (cases "fst ?r")
        case (Returned item)
        then have le: "format_item i item = listing_entry w i"
          and rt: "map (tag_read i) (snd ?r) @ [SleepMs 50] = read_trace w i"
          by (simp_all add: listing_entry_def read_trace_def read_result_def)
        from "1.IH"(1) [OF lt refl refl Returned] show ?thesis
          unfolding le append_assoc rt .
      next
        case (Thrown e)
        with False have ne: "\<not> isEndOfArray e"
          by (simp add: end_of_range_def read_result_def)
        from Thrown have le: "placeholder_item i = listing_entry w i"
          and rt: "map (tag_read i) (snd ?r) = read_trace w i"
          by (simp_all add: listing_entry_def read_trace_def read_result_def)
        from "1.IH"(2) [OF lt refl refl Thrown ne] show ?thesis
          unfolding le append_assoc rt .
      next
        case ReturnedUndefined
        with False have ne: "\<not> isEndOfArray undefined_item_error"
          by (simp add: end_of_range_def read_result_def)
        from ReturnedUndefined have le: "placeholder_item i = listing_entry w i"
          and rt: "map (tag_read i) (snd ?r) = read_trace w i"
          by (simp_all add: listing_entry_def read_trace_def read_result_def)
        from "1.IH"(3) [OF lt refl refl ReturnedUndefined ne] show ?thesis
          unfolding le append_assoc rt .
      qed
      from lt False show ?thesis
        by (subst items_loop_unfold, subst (1 2 3 4) scanned_unfold)
          (simp add: ih del: items_loop.simps)
    qed
  qed
qed

lemma scanned_upt: "scanned w i = [i..<i + length (scanned w i)]"
proof (cases "i < 1024")
  case False
  then show ?thesis by (simp add: scanned_def)
next
  case True
  let ?k = "length (scanned w i)"
  have "?k \<le> length [i..<1024]"
    unfolding scanned_def by (rule length_takeWhile_le)
  with True have le: "i + ?k \<le> 1024" by simp
  have "scanned w i = take ?k [i..<1024]"
    unfolding scanned_def by (rule takeWhile_eq_take)
  with le show ?thesis by (simp add: take_upt)
qed

lemma stop_index_le: "stop_index w \<le> 1024"
  using length_takeWhile_le [of "\<lambda>j. \<not> end_of_range w j" "[0..<1024]"]
  by (simp add: stop_index_def scanned_def)

lemma scanned_0: "scanned w 0 = [0..<stop_index w]"
  using scanned_upt [of w 0] by (simp add: stop_index_def)

lemma stop_index_end: "stop_index w < 1024 \<Longrightarrow> end_of_range w (stop_index w)"
  using nth_length_takeWhile [of "\<lambda>j. \<not> end_of_range w j" "[0..<1024]"]
  by (simp add: stop_index_def scanned_def)

lemma before_stop_index: "i < stop_index w \<Longrightarrow> \<not> end_of_range w i"
proof -
  assume "i < stop_index w"
  then have "i \<in> set (scanned w 0)" by (simp add: scanned_0)
  then show ?thesis
    unfolding scanned_def by (rule set_takeWhileD [THEN conjunct2])
qed

text \<open>The stop index is the first index with the end-of-range signal, or the bound.\<close>

lemma stop_index_unique:
  assumes "n \<le> 1024" and "\<forall>i<n. \<not> end_of_range w i" and "n < 1024 \<longrightarrow> end_of_range w n"
  shows "stop_index w = n"
proof (rule ccontr)
  assume "stop_index w \<noteq> n"
  then consider "stop_index w < n" | "n < stop_index w" by linarith
  then show False
  proof cases
    case 1
    with assms(1) have "end_of_range w (stop_index w)"
      by (intro stop_index_end) simp
    with 1 assms(2) show False by simp
  next
    case 2
    then have "\<not> end_of_range w n" by (rule before_stop_index)
    moreover from 2 have "n < 1024" using stop_index_le [of w] by simp
    ultimately show False using assms(3) by simp
  qed
qed

lemma tag_read_event: "read_event_of i (tag_read i x)"
  by (cases x) simp_all

lemma read_trace_events: "list_all (read_event_of i) (read_trace w i)"
  by (auto simp: read_trace_def list_all_iff tag_read_event split: outcome.splits)

lemma retry_default_first: "\<exists>evs. snd (retryWithBackoff fn default_maxRetries) = Call 0 # evs"
proof -
  have "\<exists>k<3. (\<forall>j<k. transient_failure fn j) \<and> (\<not> transient_failure fn k \<or> k = 3 - 1)"
    by (rule last_attempt_exists) simp
  then obtain k where k: "k < 3" "\<forall>j. 0 \<le> j \<and> j < k \<longrightarrow> transient_failure fn j"
    "\<not> transient_failure fn k \<or> k = 3 - 1"
    by auto
  have "retry_loop fn 3 0 = (attempt_result fn k, backoff_trace 0 k)"
    using k by (intro retry_loop_ends) simp_all
  then have "snd (retryWithBackoff fn default_maxRetries) = backoff_trace 0 k"
    by (simp add: retryWithBackoff_def default_maxRetries_def)
  moreover have "\<exists>evs. backoff_trace 0 k = Call 0 # evs"
  proof (cases "k = 0")
    case True
    then show ?thesis by (simp add: backoff_trace_def)
  next
    case False
    then have "[0..<k] = 0 # [Suc 0..<k]" by (simp add: upt_conv_Cons)
    then show ?thesis by (simp add: backoff_trace_def)
  qed
  ultimately show ?thesis by simp
qed

lemma read_trace_first: "\<exists>evs. read_trace w i = ItemsRead i 0 # evs"
  using retry_default_first [of "w_items w i"]
  by (auto simp: read_trace_def)

lemma handler_items: "items_route ev \<Longrightarrow> handler cfg w ev = handleGetItems w"
  by (auto simp: handler_def items_route_def)

lemma handleGetItems_listing:
  "w_init w = None \<Longrightarrow>
   handleGetItems w =
     (\<lparr>statusCode = 200,
       body = ItemsBody (map (listing_entry w) [0..<stop_index w]) (stop_index w)\<rparr>,
      InitContract # concat (map (read_trace w) [0..<min (Suc (stop_index w)) 1024]))"
proof -
  assume i: "w_init w = None"
  have tr: "concat (map (read_trace w) [0..<stop_index w])
      @ (if stop_index w < 1024 then read_trace w (stop_index w) else [])
      = concat (map (read_trace w) [0..<min (Suc (stop_index w)) 1024])"
    using stop_index_le [of w] by (auto simp: min_def)
  have "items_loop w 0 [] [InitContract] =
      (map (listing_entry w) [0..<stop_index w],
       InitContract # concat (map (read_trace w) [0..<stop_index w])
         @ (if stop_index w < 1024 then read_trace w (stop_index w) else []))"
    by (subst items_loop_scanned) (simp add: scanned_0 stop_index_def [symmetric]
        del: items_loop.simps)
  with i show ?thesis
    unfolding tr by (simp add: handleGetItems_def Let_def del: items_loop.simps)
qed

text \<open>
  Claim C6 (the listing of \<^verbatim>\<open>GET /items\<close>). When the contract can be initialised,
  the answer is 200 with one entry for each index below the stop index, in order, and
  their number; the stop index is the first index at which the read gives the
  end-of-range signal, or 1024 when there is none below. The calls made are the reads
  of the indices 0, 1, 2, ... in this order up to and including the stop index (if it
  is below 1024), each read beginning with an invocation for its index and
  consisting of invocations for that index and sleeps only. Entry \<open>i\<close> carries the id
  \<open>i\<close>; it is the item read at index \<open>i\<close> with its deleted flag as stored (deleted
  items are not left out), or, when that read fails without the end-of-range signal,
  the placeholder for \<open>i\<close>, which is flagged deleted.
\<close>

theorem listing_alignment:
  "items_route ev \<and> w_init w = None \<longrightarrow>
     fst (handler cfg w ev) =
       \<lparr>statusCode = 200,
        body = ItemsBody (map (listing_entry w) [0..<stop_index w]) (stop_index w)\<rparr>
     \<and> snd (handler cfg w ev) =
         InitContract # concat (map (read_trace w) [0..<min (Suc (stop_index w)) 1024])
     \<and> stop_index w \<le> 1024
     \<and> (stop_index w < 1024 \<longrightarrow> end_of_range w (stop_index w))
     \<and> (\<forall>i. (\<exists>evs. read_trace w i = ItemsRead i 0 # evs)
             \<and> list_all (read_event_of i) (read_trace w i))
     \<and> (\<forall>i. i < stop_index w \<longrightarrow>
           \<not> end_of_range w i
           \<and> li_id (listing_entry w i) = i
           \<and> (\<forall>item. read_result w i = Returned item \<longrightarrow>
                 listing_entry w i = format_item i item
                 \<and> li_isDeleted (listing_entry w i) = isDeleted item)
           \<and> (\<forall>e. read_result w i = Thrown e \<longrightarrow>
                 listing_entry w i = placeholder_item i
                 \<and> li_isDeleted (listing_entry w i)))"
proof (intro impI conjI allI)
  assume a: "items_route ev \<and> w_init w = None"
  then have h: "handler cfg w ev =
     (\<lparr>statusCode = 200,
       body = ItemsBody (map (listing_entry w) [0..<stop_index w]) (stop_index w)\<rparr>,
      InitContract # concat (map (read_trace w) [0..<min (Suc (stop_index w)) 1024]))"
    by (simp only: handler_items handleGetItems_listing)
  show "fst (handler cfg w ev) =
       \<lparr>statusCode = 200,
        body = ItemsBody (map (listing_entry w) [0..<stop_index w]) (stop_index w)\<rparr>"
    by (simp only: h fst_conv)
  show "snd (handler cfg w ev) =
         InitContract # concat (map (read_trace w) [0..<min (Suc (stop_index w)) 1024])"
    by (simp only: h snd_conv)
  show "stop_index w \<le> 1024" by (rule stop_index_le)
  show "end_of_range w (stop_index w)" if "stop_index w < 1024"
    using that by (rule stop_index_end)
  show "\<exists>evs. read_trace w i = ItemsRead i 0 # evs" for i
    by (rule read_trace_first)
  show "list_all (read_event_of i) (read_trace w i)" for i
    by (rule read_trace_events)
  show "\<not> end_of_range w i" if "i < stop_index w" for i
    using that by (rule before_stop_index)
  show "li_id (listing_entry w i) = i" for i
    by (simp add: listing_entry_def format_item_def placeholder_item_def
        split: outcome.splits)
  show "listing_entry w i = format_item i item" if "read_result w i = Returned item" for i item
    using that by (simp add: listing_entry_def)
  show "li_isDeleted (listing_entry w i) = isDeleted item"
    if "read_result w i = Returned item" for i item
    using that by (simp add: listing_entry_def format_item_def)
  show "listing_entry w i = placeholder_item i" if "read_result w i = Thrown e" for i e
    using that by (simp add: listing_entry_def)
  show "li_isDeleted (listing_entry w i)" if "read_result w i = Thrown e" for i e
    using that by (simp add: listing_entry_def placeholder_item_def)
qed

lemma read_result_first:
  "\<not> transient_failure (w_items w i) 0 \<Longrightarrow> read_result w i = attempt_result (w_items w i) 0"
proof -
  assume "\<not> transient_failure (w_items w i) 0"
  then have "retry_loop (w_items w i) 3 0 = (attempt_result (w_items w i) 0, backoff_trace 0 0)"
    by (intro retry_loop_ends) simp_all
  then show ?thesis
    by (simp add: read_result_def retryWithBackoff_def default_maxRetries_def)
qed

lemma read_result_third:
  "transient_failure (w_items w i) 0 \<Longrightarrow> transient_failure (w_items w i) 1
     \<Longrightarrow> read_result w i = attempt_result (w_items w i) 2"
proof -
  assume "transient_failure (w_items w i) 0" "transient_failure (w_items w i) 1"
  then have "\<forall>j. 0 \<le> j \<and> j < 2 \<longrightarrow> transient_failure (w_items w i) j"
    by (auto simp: less_Suc_eq numeral_2_eq_2)
  then have "retry_loop (w_items w i) 3 0 = (attempt_result (w_items w i) 2, backoff_trace 0 2)"
    by (intro retry_loop_ends) simp_all
  then show ?thesis
    by (simp add: read_result_def retryWithBackoff_def default_maxRetries_def)
qed

lemma scenario_E_reads:
  "read_result scenario_E_world i =
     (if i = 5 then Thrown decode_error
      else if i < 7 then Returned (item_named ''Item 1'')
      else Thrown end_error)"
proof -
  have a: "read_result scenario_E_world 5 = Thrown decode_error"
    by (subst read_result_first)
      (simp_all add: transient_failure_def attempt_result_def scenario_E_world_def
        isRateLimit_def msg_includes_def decode_error_def)
  have b: "read_result scenario_E_world i = Returned (item_named ''Item 1'')"
    if "i \<noteq> 5" "i < 7"
    using that
    by (subst read_result_first)
      (simp_all add: transient_failure_def attempt_result_def scenario_E_world_def)
  have c: "read_result scenario_E_world i = Thrown end_error" if "i \<noteq> 5" "\<not> i < 7"
    using that
    by (subst read_result_third)
      (simp_all add: transient_failure_def attempt_result_def scenario_E_world_def
        isRateLimit_def end_error_def)
  from a b c show ?thesis by auto
qed

lemma scenario_E_stop: "stop_index scenario_E_world = 7"
proof (rule stop_index_unique)
  show "(7::nat) \<le> 1024" by simp
  show "\<forall>i<7. \<not> end_of_range scenario_E_world i"
    by (simp add: end_of_range_def scenario_E_reads isEndOfArray_def msg_includes_def
        decode_error_def)
  show "(7::nat) < 1024 \<longrightarrow> end_of_range scenario_E_world 7"
    by (simp add: end_of_range_def scenario_E_reads isEndOfArray_def end_error_def)
qed

text \<open>Scenario E of the specification, through the theorem.\<close>

theorem listing_alignment_witness:
  "items_route items_request \<and> w_init scenario_E_world = None
   \<and> stop_index scenario_E_world = 7
   \<and> fst (handler relayer_config scenario_E_world items_request) =
       \<lparr>statusCode = 200, body = ItemsBody (map (listing_entry scenario_E_world) [0..<7]) 7\<rparr>
   \<and> read_result scenario_E_world 5 = Thrown decode_error
   \<and> listing_entry scenario_E_world 5 = placeholder_item 5
   \<and> li_isDeleted (listing_entry scenario_E_world 5)
   \<and> read_result scenario_E_world 6 = Returned (item_named ''Item 1'')
   \<and> listing_entry scenario_E_world 6 = format_item 6 (item_named ''Item 1'')
   \<and> li_id (listing_entry scenario_E_world 6) = 6
   \<and> end_of_range scenario_E_world 7"
proof -
  have a: "items_route items_request \<and> w_init scenario_E_world = None"
    by (simp add: items_route_def endsWith_def items_request_def scenario_E_world_def
        calm_world_def)
  have b: "read_result scenario_E_world 5 = Thrown decode_error"
    "read_result scenario_E_world 6 = Returned (item_named ''Item 1'')"
    by (simp_all add: scenario_E_reads)
  note t = listing_alignment [of items_request scenario_E_world relayer_config,
      unfolded scenario_E_stop, THEN mp, OF a]
  from t have 1: "fst (handler relayer_config scenario_E_world items_request) =
       \<lparr>statusCode = 200, body = ItemsBody (map (listing_entry scenario_E_world) [0..<7]) 7\<rparr>"
    by blast
  from t have "(7::nat) < 1024 \<longrightarrow> end_of_range scenario_E_world 7"
    by blast
  then have 2: "end_of_range scenario_E_world 7"
    by simp
  from t have 3: "i < 7 \<longrightarrow>
           li_id (listing_entry scenario_E_world i) = i
           \<and> (\<forall>item. read_result scenario_E_world i = Returned item \<longrightarrow>
                 listing_entry scenario_E_world i = format_item i item)
           \<and> (\<forall>e. read_result scenario_E_world i = Thrown e \<longrightarrow>
                 listing_entry scenario_E_world i = placeholder_item i
                 \<and> li_isDeleted (listing_entry scenario_E_world i))" for i
    by blast
  from 3 [of 5] 3 [of 6] b have 4: "listing_entry scenario_E_world 5 = placeholder_item 5
      \<and> li_isDeleted (listing_entry scenario_E_world 5)
      \<and> listing_entry scenario_E_world 6 = format_item 6 (item_named ''Item 1'')
      \<and> li_id (listing_entry scenario_E_world 6) = 6"
    by auto
  from a b 1 2 4 scenario_E_stop show ?thesis
    by blast
qed

section \<open>The listing does not reveal the encrypted names\<close>

lemma format_item_erase: "format_item i (erase_name it) = format_item i it"
  by (simp add: format_item_def erase_name_def)

text \<open>
  Two wrapped calls that agree up to a function \<open>g\<close> of the values they return are
  retried alike.
\<close>

lemma retry_loop_related:
  "(\<forall>k. map_sum id g (f1 k) = map_sum id g (f2 k)) \<Longrightarrow>
     map_outcome g (fst (retry_loop f1 n a)) = map_outcome g (fst (retry_loop f2 n a))
     \<and> snd (retry_loop f1 n a) = snd (retry_loop f2 n a)"
proof (induction "n - a" arbitrary: a)
  case 0
  then show ?case
    by (subst (1 2 3 4) retry_loop_unfold) (simp del: retry_loop.simps)
next
  case (Suc m)
  then have lt: "a < n" by simp
  from Suc.prems have rel: "map_sum id g (f1 a) = map_sum id g (f2 a)" by simp
  have ih: "map_outcome g (fst (retry_loop f1 n (Suc a))) =
      map_outcome g (fst (retry_loop f2 n (Suc a)))
      \<and> snd (retry_loop f1 n (Suc a)) = snd (retry_loop f2 n (Suc a))"
    using Suc.hyps(2) Suc.prems by (intro Suc.hyps(1)) simp_all
  show ?case
  proof (cases "f1 a")
    case (Inl e)
    with rel have "f2 a = Inl e" by (cases "f2 a") simp_all
    with Inl lt ih show ?thesis
      by (subst (1 2 3 4) retry_loop_unfold) (simp del: retry_loop.simps)
  next
    case (Inr v1)
    with rel obtain v2 where "f2 a = Inr v2" "g v1 = g v2" by (cases "f2 a") simp_all
    with Inr lt show ?thesis
      by (subst (1 2 3 4) retry_loop_unfold) (simp del: retry_loop.simps)
  qed
qed

text \<open>Two worlds whose item reads agree up to the encrypted names are listed alike.\<close>

lemma listing_related:
  assumes rel: "\<forall>i k. map_sum id erase_name (w_items w1 i k) = map_sum id erase_name (w_items w2 i k)"
    and init: "w_init w1 = w_init w2"
  shows "handleGetItems w1 = handleGetItems w2"
proof -
  have r: "map_outcome erase_name (read_result w1 i) = map_outcome erase_name (read_result w2 i)
      \<and> snd (retryWithBackoff (w_items w1 i) default_maxRetries) =
        snd (retryWithBackoff (w_items w2 i) default_maxRetries)" for i
    unfolding read_result_def retryWithBackoff_def
    using rel by (intro retry_loop_related) simp
  have cases: "(\<exists>x y. read_result w1 i = Returned x \<and> read_result w2 i = Returned y
        \<and> erase_name x = erase_name y)
      \<or> (\<exists>e. read_result w1 i = Thrown e \<and> read_result w2 i = Thrown e)
      \<or> (read_result w1 i = ReturnedUndefined \<and> read_result w2 i = ReturnedUndefined)" for i
    using r [of i] by (cases "read_result w1 i"; cases "read_result w2 i") simp_all
  have e: "end_of_range w1 i = end_of_range w2 i" for i
    using cases [of i] by (auto simp: end_of_range_def)
  have l: "listing_entry w1 i = listing_entry w2 i" for i
  proof -
    from cases [of i] consider
      x y where "read_result w1 i = Returned x" "read_result w2 i = Returned y"
        "erase_name x = erase_name y"
      | e where "read_result w1 i = Thrown e" "read_result w2 i = Thrown e"
      | "read_result w1 i = ReturnedUndefined" "read_result w2 i = ReturnedUndefined"
      by blast
    then show ?thesis
    proof cases
      case 1
      have "format_item i x = format_item i (erase_name x)"
        by (simp only: format_item_erase)
      also have "\<dots> = format_item i (erase_name y)"
        by (simp only: 1(3))
      also have "\<dots> = format_item i y"
        by (simp only: format_item_erase)
      finally show ?thesis
        by (simp add: listing_entry_def 1(1,2))
    next
      case 2
      then show ?thesis by (simp add: listing_entry_def)
    next
      case 3
      then show ?thesis by (simp add: listing_entry_def)
    qed
  qed
  have t: "read_trace w1 i = read_trace w2 i" for i
    using cases [of i] r [of i] by (auto simp: read_trace_def)
  have s: "scanned w1 i = scanned w2 i" for i
    by (simp add: scanned_def e)
  have le: "listing_entry w1 = listing_entry w2" and te: "read_trace w1 = read_trace w2"
    by (rule ext, rule l) (rule ext, rule t)
  have "items_loop w1 0 [] [InitContract] = items_loop w2 0 [] [InitContract]"
    by (simp only: items_loop_scanned s le te)
  then show ?thesis
    unfolding handleGetItems_def init by (simp only:)
qed

lemma chain_items_related:
  "map erase_name (items st1) = map erase_name (items st2) \<Longrightarrow>
   map_sum id erase_name (chain_items st1 oob faults i k) =
   map_sum id erase_name (chain_items st2 oob faults i k)"
proof -
  assume a: "map erase_name (items st1) = map erase_name (items st2)"
  then have len: "length (items st1) = length (items st2)"
    by (rule map_eq_imp_length_eq)
  have "erase_name (items st1 ! i) = erase_name (items st2 ! i)" if "i < length (items st1)"
  proof -
    have "erase_name (items st1 ! i) = map erase_name (items st1) ! i"
      using that by simp
    also have "\<dots> = map erase_name (items st2) ! i"
      by (simp only: a)
    also have "\<dots> = erase_name (items st2 ! i)"
      using that len by simp
    finally show ?thesis .
  qed
  with len show ?thesis
    by (simp add: chain_items_def split: option.splits)
qed

text \<open>
  Claim C10 (the listing and the encrypted names). An entry of the listing is made
  from the index and from the item's name, description, url, image url, purchased
  flag, deleted flag and purchase time: it is the same for an item and for that item
  with its encrypted purchaser name blanked, and a placeholder is made from the index
  alone. For any two states of the registry that differ in the encrypted purchaser
  names of their items at most, under the same failures of the transport, the
  response to \<^verbatim>\<open>GET /items\<close> is the same, and so are the calls made.
\<close>

theorem listing_noninterference:
  "format_item i (erase_name it) = format_item i it
   \<and> (items_route ev \<and> map erase_name (items st1) = map erase_name (items st2) \<longrightarrow>
        handler cfg (reading_from w st1 oob faults) ev =
        handler cfg (reading_from w st2 oob faults) ev)"
proof (intro conjI impI)
  show "format_item i (erase_name it) = format_item i it"
    by (rule format_item_erase)
  assume a: "items_route ev \<and> map erase_name (items st1) = map erase_name (items st2)"
  then have m: "map erase_name (items st1) = map erase_name (items st2)" by simp
  have "handleGetItems (reading_from w st1 oob faults) =
      handleGetItems (reading_from w st2 oob faults)"
  proof (rule listing_related)
    show "\<forall>i k. map_sum id erase_name (w_items (reading_from w st1 oob faults) i k) =
        map_sum id erase_name (w_items (reading_from w st2 oob faults) i k)"
      using chain_items_related [OF m, of oob faults] by (simp add: reading_from_def)
    show "w_init (reading_from w st1 oob faults) = w_init (reading_from w st2 oob faults)"
      by (simp add: reading_from_def)
  qed
  with a show "handler cfg (reading_from w st1 oob faults) ev =
        handler cfg (reading_from w st2 oob faults) ev"
    by (simp add: handler_items)
qed

theorem listing_noninterference_witness:
  "items_route items_request
   \<and> map erase_name (items first_purchased) = map erase_name (items other_purchased)
   \<and> encryptedPurchaserName (items first_purchased ! 0) = ''enc''
   \<and> encryptedPurchaserName (items other_purchased ! 0) = ''other''
   \<and> handler relayer_config (reading_from calm_world first_purchased end_error no_faults)
         items_request =
       handler relayer_config (reading_from calm_world other_purchased end_error no_faults)
         items_request"
proof -
  have a: "items_route items_request"
    by (simp add: items_route_def endsWith_def items_request_def)
  have b: "map erase_name (items first_purchased) = map erase_name (items other_purchased)"
    by (simp add: first_purchased_eq other_purchased_eq erase_name_def)
  have c: "encryptedPurchaserName (items first_purchased ! 0) = ''enc''"
    "encryptedPurchaserName (items other_purchased ! 0) = ''other''"
    by (simp_all add: first_purchased_eq other_purchased_eq)
  from a b listing_noninterference [of _ _ items_request first_purchased other_purchased
      relayer_config calm_world end_error no_faults]
  have "handler relayer_config (reading_from calm_world first_purchased end_error no_faults)
         items_request =
       handler relayer_config (reading_from calm_world other_purchased end_error no_faults)
         items_request"
    by blast
  with a b c show ?thesis by blast
qed

end
